theory Spec2Isabelle
  imports Complex_Main "HOL-Library.Word" "HOL-Library.AList"
begin

unbundle bit_operations_syntax

chapter \<open>ESP-PLC: Modbus RTU codec, polling and script automation\<close>

text \<open>
  A shallow embedding of the protocol codec (\<^verbatim>\<open>ESP32_Files/main.py\<close>, class
  \<^verbatim>\<open>ModbusRTU\<close>), of the two polling engines (\<^verbatim>\<open>ESP32PLCBridge.poll_plc_data\<close>
  and \<^verbatim>\<open>PLCCommunicator\<close> in \<^verbatim>\<open>RaspberryPi/plc_communication.py\<close>) and of the
  script engines (\<^verbatim>\<open>RaspberryPi/custom_scripts.py\<close>, \<^verbatim>\<open>ESP FilesBU/custom_scripts.py\<close>).
  Python integers are \<open>int\<close>, the elements of a \<^verbatim>\<open>bytes\<close>/\<^verbatim>\<open>bytearray\<close> object are
  \<open>8 word\<close>, a caught exception is a branch of the model, and everything outside
  the repository (the UART, the pymodbus client, the clock, the random generator,
  the body of a user script) is a parameter.
\<close>

section \<open>FrameCodec: class ModbusRTU\<close>

type_synonym byte = "8 word"

subsection \<open>crc16 (main.py, lines 46-57)\<close>

text \<open>One pass of the inner loop body: \<^verbatim>\<open>if crc & 1: crc >>= 1; crc ^= 0xA001 else: crc >>= 1\<close>.\<close>

definition crc_bit :: "int \<Rightarrow> int" where
  "crc_bit crc = (if crc AND 1 \<noteq> 0 then drop_bit 1 crc XOR 0xA001 else drop_bit 1 crc)"

text \<open>The body of the outer loop: \<^verbatim>\<open>crc ^= byte\<close>, then \<^verbatim>\<open>for _ in range(8)\<close>.\<close>

definition crc_byte :: "int \<Rightarrow> byte \<Rightarrow> int" where
  "crc_byte crc b = (crc_bit ^^ 8) (crc XOR uint b)"

definition crc16 :: "byte list \<Rightarrow> int" where
  "crc16 data = foldl crc_byte 0xFFFF data"

text \<open>
  The CRC as the specification words it, on a 16-bit accumulator: start at \<open>0xFFFF\<close>;
  XOR each byte into the low byte; eight times, if the low bit is set shift right one
  and XOR with \<open>0xA001\<close>, else only shift right one.
\<close>

definition spec_crc_shift :: "16 word \<Rightarrow> 16 word" where
  "spec_crc_shift acc = (if bit acc 0 then drop_bit 1 acc XOR 0xA001 else drop_bit 1 acc)"

definition spec_crc_byte :: "16 word \<Rightarrow> byte \<Rightarrow> 16 word" where
  "spec_crc_byte acc b = (spec_crc_shift ^^ 8) (acc XOR ucast b)"

definition spec_crc16 :: "byte list \<Rightarrow> 16 word" where
  "spec_crc16 data = foldl spec_crc_byte 0xFFFF data"

subsection \<open>build_request (main.py, lines 59-67)\<close>

datatype py_exn = ValueError | OverflowError | IndexError | OSError

text \<open>\<^verbatim>\<open>bytearray([a, b])\<close> raises ValueError unless every element is in \<open>range(256)\<close>.\<close>

definition bytearray2 :: "int \<Rightarrow> int \<Rightarrow> py_exn + byte list" where
  "bytearray2 a b =
     (if 0 \<le> a \<and> a < 256 \<and> 0 \<le> b \<and> b < 256 then Inr [word_of_int a, word_of_int b]
      else Inl ValueError)"

text \<open>\<^verbatim>\<open>n.to_bytes(2, 'big')\<close> and \<^verbatim>\<open>n.to_bytes(2, 'little')\<close>: OverflowError outside 16 bits.\<close>

definition to_bytes2_big :: "int \<Rightarrow> py_exn + byte list" where
  "to_bytes2_big n =
     (if 0 \<le> n \<and> n < 65536 then Inr [word_of_int (n div 256), word_of_int (n mod 256)]
      else Inl OverflowError)"

definition to_bytes2_little :: "int \<Rightarrow> py_exn + byte list" where
  "to_bytes2_little n =
     (if 0 \<le> n \<and> n < 65536 then Inr [word_of_int (n mod 256), word_of_int (n div 256)]
      else Inl OverflowError)"

definition build_request :: "int \<Rightarrow> int \<Rightarrow> int \<Rightarrow> int \<Rightarrow> py_exn + byte list" where
  "build_request slave_id function_code start_addr count =
     (case bytearray2 slave_id function_code of
        Inl e \<Rightarrow> Inl e
      | Inr hdr \<Rightarrow>
          (case to_bytes2_big start_addr of
             Inl e \<Rightarrow> Inl e
           | Inr a \<Rightarrow>
               (case to_bytes2_big count of
                  Inl e \<Rightarrow> Inl e
                | Inr c \<Rightarrow>
                    (let request = hdr @ a @ c in
                     case to_bytes2_little (crc16 request) of
                       Inl e \<Rightarrow> Inl e
                     | Inr k \<Rightarrow> Inr (request @ k)))))"

subsection \<open>The UART\<close>

text \<open>
  \<^verbatim>\<open>uart.write(request)\<close> appends to the transmit log; \<^verbatim>\<open>uart.read()\<close> takes the next
  pending answer: \<open>RxNone\<close> is the \<^verbatim>\<open>None\<close> of a timeout (also when nothing is pending),
  \<open>RxData\<close> the bytes received, \<open>RxFault\<close> a read that raises.
\<close>

datatype uart_rx = RxNone | RxData "byte list" | RxFault

record uart =
  tx :: "byte list list"
  rx :: "uart_rx list"

definition uart_write :: "uart \<Rightarrow> byte list \<Rightarrow> uart" where
  "uart_write u request = u\<lparr>tx := tx u @ [request]\<rparr>"

definition uart_read :: "uart \<Rightarrow> uart_rx \<times> uart" where
  "uart_read u = (case rx u of [] \<Rightarrow> (RxNone, u) | r # rs \<Rightarrow> (r, u\<lparr>rx := rs\<rparr>))"

subsection \<open>read_coils, read_discrete_inputs (main.py, lines 69-115)\<close>

text \<open>
  The two nested loops over \<^verbatim>\<open>data_bytes\<close> and \<^verbatim>\<open>range(8)\<close>:
  \<^verbatim>\<open>if len(bits) < count: bits.append(bool(byte_val & (1 << i)))\<close>.
\<close>

definition append_bit :: "int \<Rightarrow> byte \<Rightarrow> bool list \<Rightarrow> nat \<Rightarrow> bool list" where
  "append_bit count byte_val bits i =
     (if int (length bits) < count then bits @ [uint byte_val AND push_bit i 1 \<noteq> 0] else bits)"

definition unpack_bits :: "int \<Rightarrow> byte list \<Rightarrow> bool list" where
  "unpack_bits count data_bytes =
     foldl (\<lambda>bits byte_val. foldl (append_bit count byte_val) bits [0..<8]) [] data_bytes"

text \<open>
  What both functions do with the answer of \<^verbatim>\<open>uart.read()\<close> (lines 77-88 and 101-112,
  which differ in the function code only). The slice \<^verbatim>\<open>response[3:3+byte_count]\<close> is
  shorter than \<open>byte_count\<close> when the buffer ends early; \<^verbatim>\<open>bits[:count]\<close> is taken with
  \<open>0 \<le> count\<close>, which \<open>build_request\<close> has checked before.
\<close>

definition bits_response :: "int \<Rightarrow> int \<Rightarrow> int \<Rightarrow> byte list \<Rightarrow> bool list option" where
  "bits_response function_code slave_id count response =
     (if response \<noteq> [] \<and> 5 \<le> length response then
        if uint (response ! 0) = slave_id \<and> uint (response ! 1) = function_code then
          (let byte_count = unat (response ! 2);
               data_bytes = take byte_count (drop 3 response);
               bits = unpack_bits count data_bytes
           in Some (take (nat count) bits))
        else None
      else None)"

text \<open>Request, write, read, decode; every exception is caught and gives \<^verbatim>\<open>None\<close>.\<close>

definition read_bits :: "int \<Rightarrow> uart \<Rightarrow> int \<Rightarrow> int \<Rightarrow> int \<Rightarrow> bool list option \<times> uart" where
  "read_bits function_code u slave_id start_addr count =
     (case build_request slave_id function_code start_addr count of
        Inl e \<Rightarrow> (None, u)
      | Inr request \<Rightarrow>
          (case uart_read (uart_write u request) of
             (RxData response, u') \<Rightarrow> (bits_response function_code slave_id count response, u')
           | (RxNone, u') \<Rightarrow> (None, u')
           | (RxFault, u') \<Rightarrow> (None, u')))"

definition read_coils :: "uart \<Rightarrow> int \<Rightarrow> int \<Rightarrow> int \<Rightarrow> bool list option \<times> uart" where
  "read_coils u slave_id start_addr count = read_bits 0x01 u slave_id start_addr count"

definition read_discrete_inputs :: "uart \<Rightarrow> int \<Rightarrow> int \<Rightarrow> int \<Rightarrow> bool list option \<times> uart" where
  "read_discrete_inputs u slave_id start_addr count = read_bits 0x02 u slave_id start_addr count"

subsection \<open>read_holding_registers (main.py, lines 117-137)\<close>

text \<open>\<^verbatim>\<open>range(0, byte_count, 2)\<close>.\<close>

definition range2 :: "nat \<Rightarrow> nat list" where
  "range2 byte_count = map (\<lambda>k. 2 * k) [0..<(byte_count + 1) div 2]"

text \<open>Indexing a \<^verbatim>\<open>bytes\<close> object: IndexError out of range.\<close>

definition byte_at :: "byte list \<Rightarrow> nat \<Rightarrow> py_exn + int" where
  "byte_at response i = (if i < length response then Inr (uint (response ! i)) else Inl IndexError)"

text \<open>\<^verbatim>\<open>reg_val = (response[3+i] << 8) | response[3+i+1]\<close>.\<close>

definition reg_val :: "byte list \<Rightarrow> nat \<Rightarrow> py_exn + int" where
  "reg_val response i =
     (case byte_at response (3 + i) of
        Inl e \<Rightarrow> Inl e
      | Inr hi \<Rightarrow> (case byte_at response (3 + i + 1) of
                    Inl e \<Rightarrow> Inl e
                  | Inr lo \<Rightarrow> Inr (push_bit 8 hi OR lo)))"

text \<open>The loop \<^verbatim>\<open>for i in ...: registers.append(reg_val)\<close>, stopping at the first exception.\<close>

fun collect_regs :: "byte list \<Rightarrow> nat list \<Rightarrow> int list \<Rightarrow> py_exn + int list" where
  "collect_regs response [] registers = Inr registers"
| "collect_regs response (i # is) registers =
     (case reg_val response i of
        Inl e \<Rightarrow> Inl e
      | Inr v \<Rightarrow> collect_regs response is (registers @ [v]))"

definition registers_response :: "int \<Rightarrow> byte list \<Rightarrow> int list option" where
  "registers_response slave_id response =
     (if response \<noteq> [] \<and> 5 \<le> length response then
        if uint (response ! 0) = slave_id \<and> uint (response ! 1) = 0x03 then
          (let byte_count = unat (response ! 2) in
           if 3 + byte_count + 2 \<le> length response then
             (case collect_regs response (range2 byte_count) [] of
                Inl e \<Rightarrow> None
              | Inr registers \<Rightarrow> Some registers)
           else None)
        else None
      else None)"

definition read_holding_registers :: "uart \<Rightarrow> int \<Rightarrow> int \<Rightarrow> int \<Rightarrow> int list option \<times> uart" where
  "read_holding_registers u slave_id start_addr count =
     (case build_request slave_id 0x03 start_addr count of
        Inl e \<Rightarrow> (None, u)
      | Inr request \<Rightarrow>
          (case uart_read (uart_write u request) of
             (RxData response, u') \<Rightarrow> (registers_response slave_id response, u')
           | (RxNone, u') \<Rightarrow> (None, u')
           | (RxFault, u') \<Rightarrow> (None, u')))"

subsection \<open>Synthetic responses\<close>

text \<open>
  The encoder of the round-trip property: a well-formed answer to a read request, that is
  slave id, function code, byte count, payload and the CRC, low byte first. Coil and
  discrete-input payloads pack the values least-significant bit first, eight per byte;
  register payloads are big-endian pairs.
\<close>

definition byte_of_bits :: "bool list \<Rightarrow> byte" where
  "byte_of_bits bs = horner_sum of_bool 2 bs"

fun pack_bits :: "bool list \<Rightarrow> byte list" where
  "pack_bits [] = []"
| "pack_bits (v # vs) = byte_of_bits (take 8 (v # vs)) # pack_bits (drop 7 vs)"

definition with_crc :: "byte list \<Rightarrow> byte list" where
  "with_crc body = body @ [word_of_int (crc16 body mod 256), word_of_int (crc16 body div 256)]"

definition bits_frame :: "int \<Rightarrow> int \<Rightarrow> bool list \<Rightarrow> byte list" where
  "bits_frame slave_id function_code vals =
     with_crc ([word_of_int slave_id, word_of_int function_code, word_of_nat (length (pack_bits vals))]
               @ pack_bits vals)"

definition regs_payload :: "int list \<Rightarrow> byte list" where
  "regs_payload vals = concat (map (\<lambda>v. [word_of_int (v div 256), word_of_int (v mod 256)]) vals)"

definition registers_frame :: "int \<Rightarrow> int list \<Rightarrow> byte list" where
  "registers_frame slave_id vals =
     with_crc ([word_of_int slave_id, 0x03, word_of_nat (2 * length vals)] @ regs_payload vals)"

text \<open>The eight tests \<^verbatim>\<open>byte_val & (1 << i)\<close> of one payload byte, in loop order.\<close>

definition byte_bits :: "byte \<Rightarrow> bool list" where
  "byte_bits b = map (\<lambda>i. uint b AND push_bit i 1 \<noteq> 0) [0..<8]"

section \<open>ESP32PLCBridge.poll_plc_data\<close>

text \<open>\<^verbatim>\<open>DEVICE_ADDRESS\<close> of \<^verbatim>\<open>ESP32_Files/config.py\<close>.\<close>

definition DEVICE_ADDRESS :: int where
  "DEVICE_ADDRESS = 1"

text \<open>The format \<^verbatim>\<open>{i:03d}\<close>: decimal digits, padded with zeros to three characters.\<close>

function digits10 :: "nat \<Rightarrow> string" where
  "digits10 n = (if n < 10 then [char_of (48 + n)] else digits10 (n div 10) @ [char_of (48 + n mod 10)])"
  by pat_completeness auto
termination
  by (relation "measure id") auto

definition fmt03 :: "nat \<Rightarrow> string" where
  "fmt03 i = (let s = digits10 i in replicate (3 - length s) CHR ''0'' @ s)"

text \<open>
  A dictionary is an association list in insertion order; \<^verbatim>\<open>d[k] = v\<close> is
  \<open>AList.update\<close> (the value is replaced in place, a new key goes to the end). A
  comprehension \<^verbatim>\<open>{key(i): val(i) for i in range(n)}\<close> stores the items one by one.
\<close>

definition dict_comp :: "(nat \<Rightarrow> 'k) \<Rightarrow> (nat \<Rightarrow> 'v) \<Rightarrow> nat \<Rightarrow> ('k \<times> 'v) list" where
  "dict_comp key val n = foldl (\<lambda>d i. AList.update (key i) (val i) d) [] [0..<n]"

text \<open>The keys of \<^verbatim>\<open>data_registers\<close> are strings (\<^verbatim>\<open>'DS001'\<close>) and integers (\<^verbatim>\<open>1\<close>).\<close>

datatype dkey = SKey string | IKey int

text \<open>
  \<^verbatim>\<open>self.plc_data\<close>. \<^verbatim>\<open>script_results\<close> is absent until a poll stores it;
  \<^verbatim>\<open>system_info\<close>, which no poll touches, is left out.
\<close>

record 'r plc_data =
  connected :: bool
  last_update :: rat
  communication_errors :: int
  digital_inputs :: "(int \<times> bool) list"
  digital_outputs :: "(int \<times> bool) list"
  input_status :: "(string \<times> bool) list"
  coil_status :: "(string \<times> bool) list"
  data_registers :: "(dkey \<times> int) list"
  script_results :: "'r option"

text \<open>
  The bridge: \<^verbatim>\<open>self.modbus\<close> is \<^verbatim>\<open>None\<close> when the UART could not be opened;
  \<^verbatim>\<open>self.script_engine\<close>, when present, is what \<^verbatim>\<open>execute_enabled_scripts\<close> answers in
  this cycle on the data it is given, \<^verbatim>\<open>None\<close> standing for a raised exception. The
  scripts are taken to read the data they are given and not to assign into it.
\<close>

record 'r bridge =
  modbus :: "uart option"
  plc_data :: "'r plc_data"
  script_engine :: "('r plc_data \<Rightarrow> 'r option) option"

text \<open>\<^verbatim>\<open>__init__\<close> (lines 142-195), given the UART it could open and the engine it could make.\<close>

definition bridge_init :: "uart option \<Rightarrow> ('r plc_data \<Rightarrow> 'r option) option \<Rightarrow> 'r bridge" where
  "bridge_init u engine =
     \<lparr>modbus = u,
      plc_data = \<lparr>connected = False, last_update = 0, communication_errors = 0,
                  digital_inputs = [], digital_outputs = [], input_status = [],
                  coil_status = [], data_registers = [], script_results = None\<rparr>,
      script_engine = engine\<rparr>"

text \<open>Python truth of a read result: neither \<^verbatim>\<open>None\<close> nor an empty list.\<close>

definition truthy :: "'a list option \<Rightarrow> bool" where
  "truthy r = (case r of None \<Rightarrow> False | Some xs \<Rightarrow> xs \<noteq> [])"

text \<open>The dictionaries built from a decode: lines 336-341, 347-352 and 357-362.\<close>

definition input_status_of :: "bool list \<Rightarrow> (string \<times> bool) list" where
  "input_status_of inputs = dict_comp (\<lambda>i. ''X'' @ fmt03 i) (\<lambda>i. inputs ! i) (length inputs)"

definition coil_status_of :: "bool list \<Rightarrow> (string \<times> bool) list" where
  "coil_status_of coils = dict_comp (\<lambda>i. ''Y'' @ fmt03 i) (\<lambda>i. coils ! i) (length coils)"

definition numbered_of :: "bool list \<Rightarrow> (int \<times> bool) list" where
  "numbered_of bits = dict_comp (\<lambda>i. int i + 1) (\<lambda>i. bits ! i) (length bits)"

text \<open>
  \<^verbatim>\<open>data_registers\<close>: the comprehension keyed \<^verbatim>\<open>DS001\<close>, ..., then the loop
  \<^verbatim>\<open>for i, val in enumerate(registers): data_registers[i+1] = val\<close>.
\<close>

definition data_registers_of :: "int list \<Rightarrow> (dkey \<times> int) list" where
  "data_registers_of registers =
     foldl (\<lambda>d i. AList.update (IKey (int i + 1)) (registers ! i) d)
       (dict_comp (\<lambda>i. SKey (''DS'' @ fmt03 (i + 1))) (\<lambda>i. registers ! i) (length registers))
       [0..<length registers]"

text \<open>Lines 335-342, 346-352 and 356-362: the three conditional updates.\<close>

definition store_inputs :: "bool list option \<Rightarrow> 'r plc_data \<Rightarrow> 'r plc_data" where
  "store_inputs inputs d =
     (case inputs of
        Some xs \<Rightarrow>
          if xs \<noteq> [] then
            d\<lparr>input_status := input_status_of xs, digital_inputs := numbered_of xs, connected := True\<rparr>
          else d
      | None \<Rightarrow> d)"

definition store_coils :: "bool list option \<Rightarrow> 'r plc_data \<Rightarrow> 'r plc_data" where
  "store_coils coils d =
     (case coils of
        Some xs \<Rightarrow>
          if xs \<noteq> [] then d\<lparr>coil_status := coil_status_of xs, digital_outputs := numbered_of xs\<rparr>
          else d
      | None \<Rightarrow> d)"

definition store_registers :: "int list option \<Rightarrow> 'r plc_data \<Rightarrow> 'r plc_data" where
  "store_registers registers d =
     (case registers of
        Some xs \<Rightarrow> if xs \<noteq> [] then d\<lparr>data_registers := data_registers_of xs\<rparr> else d
      | None \<Rightarrow> d)"

text \<open>Lines 367-372: the script engine runs only when the inputs were read.\<close>

definition run_scripts :: "('r plc_data \<Rightarrow> 'r option) option \<Rightarrow> bool list option \<Rightarrow> 'r plc_data \<Rightarrow> 'r plc_data" where
  "run_scripts engine inputs d =
     (case engine of
        Some execute_enabled_scripts \<Rightarrow>
          if truthy inputs then
            (case execute_enabled_scripts d of
               Some results \<Rightarrow> d\<lparr>script_results := Some results\<rparr>
             | None \<Rightarrow> d)
          else d
      | None \<Rightarrow> d)"

text \<open>
  \<^verbatim>\<open>poll_plc_data\<close> (lines 327-384) at time \<open>now\<close>. The readers catch their own
  exceptions and nothing else in the \<^verbatim>\<open>try\<close> block can raise, so the handler of
  lines 380-384 has no branch here.
\<close>

definition poll_plc_data :: "rat \<Rightarrow> 'r bridge \<Rightarrow> bool \<times> 'r bridge" where
  "poll_plc_data now b =
     (case modbus b of
        None \<Rightarrow> (False, b)
      | Some u \<Rightarrow>
          (let (inputs, u1) = read_discrete_inputs u DEVICE_ADDRESS 0 16;
               d1 = store_inputs inputs (plc_data b);
               (coils, u2) = read_coils u1 DEVICE_ADDRESS 0 16;
               d2 = store_coils coils d1;
               (registers, u3) = read_holding_registers u2 DEVICE_ADDRESS 0 10;
               d3 = store_registers registers d2;
               d4 = d3\<lparr>last_update := now\<rparr>;
               d5 = run_scripts (script_engine b) inputs d4
           in if truthy inputs \<or> truthy coils \<or> truthy registers then
                (True, b\<lparr>modbus := Some u3, plc_data := d5\<rparr>)
              else
                (False, b\<lparr>modbus := Some u3,
                          plc_data := d5\<lparr>communication_errors := communication_errors d5 + 1\<rparr>\<rparr>)))"

text \<open>The three decodes of one cycle that starts with the UART \<open>u\<close>, in the order of the calls.\<close>

definition poll_reads :: "uart \<Rightarrow> bool list option \<times> bool list option \<times> int list option" where
  "poll_reads u =
     (let (inputs, u1) = read_discrete_inputs u DEVICE_ADDRESS 0 16;
          (coils, u2) = read_coils u1 DEVICE_ADDRESS 0 16;
          (registers, u3) = read_holding_registers u2 DEVICE_ADDRESS 0 10
      in (inputs, coils, registers))"


section \<open>PLCCommunicator (RaspberryPi/plc_communication.py)\<close>

subsection \<open>Objects\<close>

datatype pyval = PNone | PBool bool | PInt int | PNum rat | PStr string

type_synonym pydict = "(string \<times> pyval) list"

text \<open>The fields of \<^verbatim>\<open>Config\<close> that the communicator reads.\<close>

record config =
  SIMULATION_MODE :: bool
  POLL_INTERVAL :: rat
  CONNECTION_TYPE :: string
  SERIAL_PORT :: string
  MODBUS_METHOD :: string
  BAUD_RATE :: int
  DEVICE_ADDRESS_cfg :: int

text \<open>The pymodbus client object, known by the port and rate it was made for.\<close>

datatype modbus_client = ModbusSerialClient string int

text \<open>
  \<^verbatim>\<open>self.plc_status\<close> is a dictionary object whose values for \<^verbatim>\<open>data_registers\<close>,
  \<^verbatim>\<open>coil_status\<close>, \<^verbatim>\<open>input_status\<close> and \<^verbatim>\<open>system_info\<close> are references to further
  dictionary objects. A status object holds the scalar entries and the four references
  (addresses into \<open>dicts\<close>); \<^verbatim>\<open>last_update\<close> stands for the ISO text of an instant;
  \<^verbatim>\<open>data_age_seconds\<close> and \<^verbatim>\<open>data_fresh\<close> are absent until \<open>get_status\<close> adds them.
\<close>

record plc_status =
  status_connected :: bool
  status_last_update :: "rat option"
  status_communication_errors :: int
  data_registers_ref :: nat
  coil_status_ref :: nat
  input_status_ref :: nat
  system_info_ref :: nat
  data_age_seconds :: "rat option"
  data_fresh :: "bool option"

text \<open>
  The communicator with its object store: \<open>statuses\<close> holds the status objects (the live
  one at address \<open>plc_status\<close>, and every copy handed out), \<open>dicts\<close> the nested
  dictionaries. \<open>comm_connected\<close> and \<open>comm_last_update\<close> are \<^verbatim>\<open>self.connected\<close> and
  \<^verbatim>\<open>self.last_update\<close>; \<open>MODBUS_AVAILABLE\<close> is the module flag set at import.
\<close>

record communicator =
  config :: config
  MODBUS_AVAILABLE :: bool
  client :: "modbus_client option"
  comm_connected :: bool
  comm_last_update :: "rat option"
  simulation_mode :: bool
  simulation_counter :: int
  plc_status :: nat
  statuses :: "plc_status list"
  dicts :: "pydict list"

definition live :: "communicator \<Rightarrow> plc_status" where
  "live s = statuses s ! plc_status s"

text \<open>Assignment to an entry of the live status object.\<close>

definition update_live :: "(plc_status \<Rightarrow> plc_status) \<Rightarrow> communicator \<Rightarrow> communicator" where
  "update_live f s = s\<lparr>statuses := (statuses s)[plc_status s := f (live s)]\<rparr>"

text \<open>A dictionary display or comprehension makes a new object.\<close>

definition new_dict :: "pydict \<Rightarrow> communicator \<Rightarrow> nat \<times> communicator" where
  "new_dict d s = (length (dicts s), s\<lparr>dicts := dicts s @ [d]\<rparr>)"

subsection \<open>__init__ (lines 27-51)\<close>

definition init :: "config \<Rightarrow> bool \<Rightarrow> communicator" where
  "init cfg available =
     \<lparr>config = cfg,
      MODBUS_AVAILABLE = available,
      client = None,
      comm_connected = False,
      comm_last_update = None,
      simulation_mode = SIMULATION_MODE cfg,
      simulation_counter = 0,
      plc_status = 0,
      statuses =
        [\<lparr>status_connected = False, status_last_update = None, status_communication_errors = 0,
          data_registers_ref = 0, coil_status_ref = 1, input_status_ref = 2, system_info_ref = 3,
          data_age_seconds = None, data_fresh = None\<rparr>],
      dicts =
        [ [], [], [],
         [(''plc_model'',
             PStr (''AutomationDirect CLICK'' @ (if SIMULATION_MODE cfg then '' (Simulation)'' else ''''))),
          (''communication_type'', PStr (MODBUS_METHOD cfg)),
          (''baud_rate'', PInt (BAUD_RATE cfg)),
          (''device_address'', PInt (DEVICE_ADDRESS_cfg cfg))]]\<rparr>"

subsection \<open>connect, disconnect (lines 53-121)\<close>

text \<open>\<^verbatim>\<open>str.lower()\<close> on ASCII letters.\<close>

definition lower_char :: "char \<Rightarrow> char" where
  "lower_char c = (if 65 \<le> (of_char c :: nat) \<and> (of_char c :: nat) \<le> 90 then char_of (of_char c + 32 :: nat) else c)"

definition str_lower :: "string \<Rightarrow> string" where
  "str_lower s = map lower_char s"

text \<open>
  What the library does in this call: the constructor raises, \<^verbatim>\<open>client.connect()\<close> raises,
  or it returns a truth value.
\<close>

datatype connect_io = CtorRaises | ConnectRaises | ConnectReturns bool

definition set_connected :: "bool \<Rightarrow> communicator \<Rightarrow> communicator" where
  "set_connected v s = update_live (\<lambda>st. st\<lparr>status_connected := v\<rparr>) (s\<lparr>comm_connected := v\<rparr>)"

text \<open>
  \<open>connect\<close>. The result of \<^verbatim>\<open>_test_communication\<close> is only logged, and that method catches
  its own exceptions, so it has no branch here.
\<close>

definition connect :: "connect_io \<Rightarrow> communicator \<Rightarrow> bool \<times> communicator" where
  "connect io s =
     (if simulation_mode s then (True, set_connected True s)
      else if \<not> MODBUS_AVAILABLE s then (False, s)
      else if str_lower (CONNECTION_TYPE (config s)) = ''serial'' then
        (let c = ModbusSerialClient (SERIAL_PORT (config s)) (BAUD_RATE (config s)) in
         case io of
           CtorRaises \<Rightarrow> (False, set_connected False s)
         | ConnectRaises \<Rightarrow> (False, set_connected False (s\<lparr>client := Some c\<rparr>))
         | ConnectReturns ok \<Rightarrow>
             (let s1 = s\<lparr>client := Some c, comm_connected := ok\<rparr> in
              if ok then (True, update_live (\<lambda>st. st\<lparr>status_connected := True\<rparr>) s1)
              else (False, s1)))
      else (False, s))"

text \<open>\<open>disconnect\<close>; \<open>close_raises\<close> says whether \<^verbatim>\<open>client.close()\<close> raises.\<close>

definition disconnect :: "bool \<Rightarrow> communicator \<Rightarrow> communicator" where
  "disconnect close_raises s =
     (if client s \<noteq> None \<and> comm_connected s then
        (if close_raises then s else set_connected False s)
      else s)"

subsection \<open>poll_data (lines 138-189)\<close>

text \<open>
  The answer of one library call: a response object, a response whose \<^verbatim>\<open>isError()\<close> is
  true (with its text), or an exception (with its text).
\<close>

datatype 'a mb_result = MbValue 'a | MbError string | MbRaise string

definition raised :: "'a mb_result \<Rightarrow> bool" where
  "raised r = (case r of MbRaise e \<Rightarrow> True | _ \<Rightarrow> False)"

record poll_io =
  coil_result :: "bool list mb_result"
  input_result :: "bool list mb_result"
  register_result :: "int list mb_result"

text \<open>The three comprehensions of lines 158-160, 165-167 and 172-174.\<close>

definition coil_status_dict :: "bool list \<Rightarrow> pydict" where
  "coil_status_dict bits = dict_comp (\<lambda>i. ''Y'' @ fmt03 i) (\<lambda>i. PBool (bits ! i)) (length bits)"

definition input_status_dict :: "bool list \<Rightarrow> pydict" where
  "input_status_dict bits = dict_comp (\<lambda>i. ''X'' @ fmt03 i) (\<lambda>i. PBool (bits ! i)) (length bits)"

definition data_registers_dict :: "int list \<Rightarrow> pydict" where
  "data_registers_dict registers =
     dict_comp (\<lambda>i. ''DS'' @ fmt03 (i + 1)) (\<lambda>i. PInt (registers ! i)) (length registers)"

text \<open>Each assignment makes the new dictionary and stores its reference in the live object.\<close>

definition store_coil_status :: "bool list \<Rightarrow> communicator \<Rightarrow> communicator" where
  "store_coil_status bits s =
     (let (a, s1) = new_dict (coil_status_dict bits) s
      in update_live (\<lambda>st. st\<lparr>coil_status_ref := a\<rparr>) s1)"

definition store_input_status :: "bool list \<Rightarrow> communicator \<Rightarrow> communicator" where
  "store_input_status bits s =
     (let (a, s1) = new_dict (input_status_dict bits) s
      in update_live (\<lambda>st. st\<lparr>input_status_ref := a\<rparr>) s1)"

definition store_data_registers :: "int list \<Rightarrow> communicator \<Rightarrow> communicator" where
  "store_data_registers registers s =
     (let (a, s1) = new_dict (data_registers_dict registers) s
      in update_live (\<lambda>st. st\<lparr>data_registers_ref := a\<rparr>) s1)"

text \<open>The handler of lines 183-189.\<close>

definition poll_failed :: "communicator \<Rightarrow> bool \<times> communicator" where
  "poll_failed s =
     (False, update_live (\<lambda>st. st\<lparr>status_communication_errors := status_communication_errors st + 1\<rparr>) s)"

text \<open>Lines 176-181.\<close>

definition poll_done :: "rat \<Rightarrow> communicator \<Rightarrow> bool \<times> communicator" where
  "poll_done now s =
     (True, (update_live (\<lambda>st. st\<lparr>status_last_update := Some now\<rparr>) s)\<lparr>comm_last_update := Some now\<rparr>)"

text \<open>
  \<^verbatim>\<open>_simulate_plc_data\<close> (lines 191-252). The random draws and the sine term are given:
  \<open>rnd_input i\<close> and \<open>rnd_coil i\<close> are the outcomes of the comparisons for index \<open>i\<close>,
  \<open>sine_register\<close> is \<^verbatim>\<open>int(200 + 50 * math.sin(current_time / 10))\<close>, \<open>rnd_register i\<close> the
  truncated random value of register \<open>i\<close>.
\<close>

record sim_draws =
  rnd_input :: "nat \<Rightarrow> bool"
  rnd_coil :: "nat \<Rightarrow> bool"
  sine_register :: int
  rnd_register :: "nat \<Rightarrow> int"

definition sim_input_status :: "int \<Rightarrow> sim_draws \<Rightarrow> pydict" where
  "sim_input_status counter draws =
     dict_comp (\<lambda>i. ''X'' @ fmt03 i)
       (\<lambda>i. PBool (if i < 4 then (counter div (int i + 2)) mod 2 = 0 else rnd_input draws i)) 16"

definition sim_coil_status :: "int \<Rightarrow> sim_draws \<Rightarrow> pydict \<Rightarrow> pydict" where
  "sim_coil_status counter draws inputs =
     dict_comp (\<lambda>i. ''Y'' @ fmt03 i)
       (\<lambda>i. if i < 4 then (case map_of inputs (''X'' @ fmt03 i) of Some v \<Rightarrow> v | None \<Rightarrow> PBool False)
            else if i < 8 then PBool ((counter div (int i - 2)) mod 2 = 0)
            else PBool (rnd_coil draws i)) 16"

definition sim_data_registers :: "int \<Rightarrow> sim_draws \<Rightarrow> pydict" where
  "sim_data_registers counter draws =
     dict_comp (\<lambda>i. ''DS'' @ fmt03 (i + 1))
       (\<lambda>i. PInt (if i = 0 then counter mod 1000
                  else if i = 1 then sine_register draws
                  else if i = 2 then rnd_register draws i
                  else if i = 3 then (counter * 5) mod 1000
                  else rnd_register draws i)) 10"

definition simulate_plc_data :: "sim_draws \<Rightarrow> rat \<Rightarrow> communicator \<Rightarrow> bool \<times> communicator" where
  "simulate_plc_data draws now s =
     (let s0 = s\<lparr>simulation_counter := simulation_counter s + 1\<rparr>;
          counter = simulation_counter s0;
          inputs = sim_input_status counter draws;
          (ai, s1) = new_dict inputs s0;
          (ac, s2) = new_dict (sim_coil_status counter draws inputs) s1;
          (ar, s3) = new_dict (sim_data_registers counter draws) s2;
          s4 = update_live (\<lambda>st. st\<lparr>input_status_ref := ai, coil_status_ref := ac,
                                      data_registers_ref := ar, status_last_update := Some now\<rparr>) s3
      in (True, s4\<lparr>comm_last_update := Some now\<rparr>))"

text \<open>\<open>poll_data\<close> at time \<open>now\<close>, with the answers \<open>io\<close> of the three library calls.\<close>

definition poll_data :: "poll_io \<Rightarrow> sim_draws \<Rightarrow> rat \<Rightarrow> communicator \<Rightarrow> bool \<times> communicator" where
  "poll_data io draws now s =
     (if \<not> comm_connected s then (False, s)
      else if simulation_mode s then simulate_plc_data draws now s
      else if client s = None then (False, s)
      else if MODBUS_AVAILABLE s then
        (case coil_result io of
           MbRaise e \<Rightarrow> poll_failed s
         | r1 \<Rightarrow>
            (let s1 = (case r1 of MbValue bits \<Rightarrow> store_coil_status bits s | _ \<Rightarrow> s) in
             case input_result io of
               MbRaise e \<Rightarrow> poll_failed s1
             | r2 \<Rightarrow>
                (let s2 = (case r2 of MbValue bits \<Rightarrow> store_input_status bits s1 | _ \<Rightarrow> s1) in
                 case register_result io of
                   MbRaise e \<Rightarrow> poll_failed s2
                 | r3 \<Rightarrow>
                    (let s3 = (case r3 of MbValue regs \<Rightarrow> store_data_registers regs s2 | _ \<Rightarrow> s2)
                     in poll_done now s3))))
      else poll_done now s)"

subsection \<open>get_status, write_coil, write_register (lines 254-298)\<close>

text \<open>\<^verbatim>\<open>round(x, 1)\<close>, with the clock read as an exact number: to the nearest tenth, ties to even.\<close>

definition py_round1 :: "rat \<Rightarrow> rat" where
  "py_round1 x =
     (let y = x * 10; f = \<lfloor>y\<rfloor>; r = y - of_int f
      in of_int (if r < 1 / 2 then f else if 1 / 2 < r then f + 1 else if even f then f else f + 1) / 10)"

text \<open>
  Lines 257-260 at time \<open>now\<close>: when \<^verbatim>\<open>self.last_update\<close> is set (neither \<^verbatim>\<open>None\<close> nor
  zero), the two derived entries are written into the live object.
\<close>

definition add_data_age :: "rat \<Rightarrow> communicator \<Rightarrow> communicator" where
  "add_data_age now s =
     (case comm_last_update s of
        None \<Rightarrow> s
      | Some t \<Rightarrow>
          if t = 0 then s
          else update_live (\<lambda>st. st\<lparr>data_age_seconds := Some (py_round1 (now - t)),
                                    data_fresh := Some (now - t < POLL_INTERVAL (config s) * 2)\<rparr>) s)"

text \<open>
  \<open>get_status\<close>: after that, \<^verbatim>\<open>self.plc_status.copy()\<close> makes a new status object with
  the same entries, the four references included. The result is the address of the copy.
\<close>

definition get_status :: "rat \<Rightarrow> communicator \<Rightarrow> nat \<times> communicator" where
  "get_status now s =
     (let s1 = add_data_age now s
      in (length (statuses s1), s1\<lparr>statuses := statuses s1 @ [live s1]\<rparr>))"

text \<open>The text of a failed write: \<^verbatim>\<open>str(result)\<close> or \<^verbatim>\<open>str(e)\<close>.\<close>

definition write_answer :: "unit mb_result \<Rightarrow> bool \<times> string" where
  "write_answer r = (case r of MbValue _ \<Rightarrow> (True, ''Success'') | MbError m \<Rightarrow> (False, m) | MbRaise m \<Rightarrow> (False, m))"

definition write_coil :: "unit mb_result \<Rightarrow> communicator \<Rightarrow> int \<Rightarrow> bool \<Rightarrow> bool \<times> string" where
  "write_coil io s address val =
     (if \<not> comm_connected s \<or> client s = None then (False, ''PLC not connected'')
      else write_answer io)"

definition write_register :: "unit mb_result \<Rightarrow> communicator \<Rightarrow> int \<Rightarrow> int \<Rightarrow> bool \<times> string" where
  "write_register io s address val =
     (if \<not> comm_connected s \<or> client s = None then (False, ''PLC not connected'')
      else write_answer io)"

subsection \<open>Reading and changing a status object\<close>

text \<open>
  What a reader of the status object at address \<open>a\<close> sees: the scalar entries and the
  contents of the four dictionaries it refers to.
\<close>

record snapshot =
  snap_connected :: bool
  snap_last_update :: "rat option"
  snap_communication_errors :: int
  snap_data_registers :: pydict
  snap_coil_status :: pydict
  snap_input_status :: pydict
  snap_system_info :: pydict
  snap_data_age_seconds :: "rat option"
  snap_data_fresh :: "bool option"

definition view :: "communicator \<Rightarrow> nat \<Rightarrow> snapshot" where
  "view s a =
     (let st = statuses s ! a in
      \<lparr>snap_connected = status_connected st,
       snap_last_update = status_last_update st,
       snap_communication_errors = status_communication_errors st,
       snap_data_registers = dicts s ! data_registers_ref st,
       snap_coil_status = dicts s ! coil_status_ref st,
       snap_input_status = dicts s ! input_status_ref st,
       snap_system_info = dicts s ! system_info_ref st,
       snap_data_age_seconds = data_age_seconds st,
       snap_data_fresh = data_fresh st\<rparr>)"

text \<open>
  What a caller can do to a status object it was handed: assign one of its entries
  (\<^verbatim>\<open>snapshot['connected'] = v\<close>, any change \<open>f\<close> of the entries), or assign inside a
  dictionary it refers to (\<^verbatim>\<open>snapshot['coil_status'][k] = v\<close>).
\<close>

definition assign_entry :: "nat \<Rightarrow> (plc_status \<Rightarrow> plc_status) \<Rightarrow> communicator \<Rightarrow> communicator" where
  "assign_entry a f s = s\<lparr>statuses := (statuses s)[a := f (statuses s ! a)]\<rparr>"

definition assign_coil_status_item :: "nat \<Rightarrow> string \<Rightarrow> pyval \<Rightarrow> communicator \<Rightarrow> communicator" where
  "assign_coil_status_item a k v s =
     (let r = coil_status_ref (statuses s ! a)
      in s\<lparr>dicts := (dicts s)[r := AList.update k v (dicts s ! r)]\<rparr>)"

text \<open>The references of the live object point into the store.\<close>

definition well_formed :: "communicator \<Rightarrow> bool" where
  "well_formed s \<longleftrightarrow>
     plc_status s < length (statuses s) \<and>
     data_registers_ref (live s) < length (dicts s) \<and>
     coil_status_ref (live s) < length (dicts s) \<and>
     input_status_ref (live s) < length (dicts s) \<and>
     system_info_ref (live s) < length (dicts s)"

text \<open>A run of calls on the communicator, each with what the outside answers in it.\<close>

datatype call =
    Connect connect_io
  | Disconnect bool
  | PollData poll_io sim_draws rat
  | GetStatus rat
  | WriteCoil "unit mb_result" int bool
  | WriteRegister "unit mb_result" int int

fun do_call :: "communicator \<Rightarrow> call \<Rightarrow> communicator" where
  "do_call s (Connect io) = snd (connect io s)"
| "do_call s (Disconnect close_raises) = disconnect close_raises s"
| "do_call s (PollData io draws now) = snd (poll_data io draws now s)"
| "do_call s (GetStatus now) = snd (get_status now s)"
| "do_call s (WriteCoil io address val) = s"
| "do_call s (WriteRegister io address val) = s"

definition do_calls :: "communicator \<Rightarrow> call list \<Rightarrow> communicator" where
  "do_calls s cs = foldl do_call s cs"

section \<open>ScriptEngine and ScriptExecutor (RaspberryPi/custom_scripts.py)\<close>

subsection \<open>Objects\<close>

text \<open>
  \<^verbatim>\<open>GPIOController.pin_states\<close>: pin number to mode and value. This is the controller
  without the GPIO library (\<^verbatim>\<open>gpio_available\<close> false), where the pins live in memory only.
\<close>

record pin =
  pin_mode :: string
  pin_value :: bool

type_synonym pins = "(int \<times> pin) list"

text \<open>The runtime state of one script: the dictionary \<^verbatim>\<open>script_states[script_id]\<close>.\<close>

type_synonym sstate = pydict

text \<open>
  What is outside the engine and open to a script: the clock (\<^verbatim>\<open>time.time()\<close>) and, in the
  rest of the record, whatever else it reaches through the write wrappers.
\<close>

record world =
  clock :: rat

text \<open>
  A run of \<^verbatim>\<open>execute(plc_data, gpio, script_state)\<close> returns a value, a dictionary or
  something else, or raises an exception with a text. Either way it leaves the pins, its
  runtime state and the world as it changed them up to that point. It is handed nothing
  else: the registry and the runtime states of the other scripts are out of its reach.
\<close>

datatype result = RDict pydict | ROther pyval

datatype outcome = Returns result | Raises string

type_synonym ('p, 'w) execute =
  "'p \<Rightarrow> pins \<Rightarrow> sstate \<Rightarrow> 'w world_scheme \<Rightarrow> outcome \<times> pins \<times> sstate \<times> 'w world_scheme"

text \<open>
  The meaning of a script's \<^verbatim>\<open>code\<close> text under \<^verbatim>\<open>exec\<close>: it raises (a syntax error, a
  failing top-level statement), it runs without defining \<^verbatim>\<open>execute\<close>, or it defines
  \<^verbatim>\<open>execute\<close>.
\<close>

datatype ('p, 'w) code = ExecRaises string | NoExecute | Execute "('p, 'w) execute"

record ('p, 'w) script =
  name :: string
  description :: string
  enabled :: bool
  gpio_pins :: "int list"
  code :: "('p, 'w) code"

text \<open>
  \<^verbatim>\<open>ScriptEngine.scripts\<close> and \<^verbatim>\<open>ScriptEngine.script_states\<close>, the pin states of the
  executor's \<^verbatim>\<open>GPIOController\<close>, and the world.
\<close>

record ('p, 'w) engine =
  scripts :: "(string \<times> ('p, 'w) script) list"
  script_states :: "(string \<times> sstate) list"
  pin_states :: pins
  world :: "'w world_scheme"

subsection \<open>execute_script (lines 228-290)\<close>

text \<open>Lines 240-242: \<^verbatim>\<open>setup_pin(pin, "output")\<close> for every bound pin that has no state yet.\<close>

definition setup_pins :: "int list \<Rightarrow> pins \<Rightarrow> pins" where
  "setup_pins ps pins =
     foldl (\<lambda>pins pin. if map_of pins pin = None
                         then AList.update pin \<lparr>pin_mode = ''output'', pin_value = False\<rparr> pins
                         else pins) pins ps"

text \<open>Lines 245-246: the runtime state is created empty on first execution.\<close>

definition ensure_state :: "string \<Rightarrow> (string \<times> sstate) list \<Rightarrow> (string \<times> sstate) list" where
  "ensure_state script_id states =
     (if map_of states script_id = None then AList.update script_id [] states else states)"

text \<open>Line 248: \<^verbatim>\<open>script_state = self.engine.script_states[script_id]\<close>.\<close>

definition script_state :: "string \<Rightarrow> (string \<times> sstate) list \<Rightarrow> sstate" where
  "script_state script_id states = (case map_of states script_id of Some st \<Rightarrow> st | None \<Rightarrow> [])"

text \<open>Lines 286-290: the result of a run that raised.\<close>

definition error_record :: "string \<Rightarrow> string \<Rightarrow> rat \<Rightarrow> result" where
  "error_record msg script_id t =
     RDict [(''error'', PStr (''Script execution failed: '' @ msg)),
            (''script_id'', PStr script_id),
            (''timestamp'', PNum t)]"

text \<open>Lines 275-280: a dictionary result gets the script's name, its id and the time.\<close>

definition tag_result :: "string \<Rightarrow> string \<Rightarrow> rat \<Rightarrow> result \<Rightarrow> result" where
  "tag_result script_name script_id t r =
     (case r of
        RDict d \<Rightarrow>
          RDict (AList.update ''timestamp'' (PNum t)
                  (AList.update ''script_id'' (PStr script_id)
                    (AList.update ''script_name'' (PStr script_name) d)))
      | ROther v \<Rightarrow> ROther v)"

text \<open>The engine before the code runs: pins set up, runtime state present.\<close>

definition prepare :: "string \<Rightarrow> ('p, 'w) script \<Rightarrow> ('p, 'w) engine \<Rightarrow> ('p, 'w) engine" where
  "prepare script_id s e =
     e\<lparr>pin_states := setup_pins (gpio_pins s) (pin_states e),
       script_states := ensure_state script_id (script_states e)\<rparr>"

text \<open>The end of a run of \<^verbatim>\<open>execute\<close>: its effects stay, its outcome becomes the result.\<close>

definition finish :: "string \<Rightarrow> ('p, 'w) script \<Rightarrow> ('p, 'w) engine \<Rightarrow>
    outcome \<times> pins \<times> sstate \<times> 'w world_scheme \<Rightarrow> result \<times> ('p, 'w) engine" where
  "finish script_id s e run =
     (case run of (out, pins', state', w') \<Rightarrow>
        ((case out of
            Raises msg \<Rightarrow> error_record msg script_id (clock w')
          | Returns r \<Rightarrow> tag_result (name s) script_id (clock w') r),
         e\<lparr>pin_states := pins',
           script_states := AList.update script_id state' (script_states e),
           world := w'\<rparr>))"

definition execute_script :: "string \<Rightarrow> 'p \<Rightarrow> ('p, 'w) engine \<Rightarrow> result \<times> ('p, 'w) engine" where
  "execute_script script_id data e =
     (case map_of (scripts e) script_id of
        None \<Rightarrow> (RDict [(''error'', PStr (''Script '' @ script_id @ '' not found''))], e)
      | Some s \<Rightarrow>
          if \<not> enabled s then (RDict [(''status'', PStr ''Script disabled'')], e)
          else
            (let e1 = prepare script_id s e in
             case code s of
               ExecRaises msg \<Rightarrow> (error_record msg script_id (clock (world e1)), e1)
             | NoExecute \<Rightarrow>
                 (RDict [(''error'', PStr ''Script must define an 'execute' function'')], e1)
             | Execute f \<Rightarrow>
                 finish script_id s e1
                   (f data (pin_states e1) (script_state script_id (script_states e1)) (world e1))))"

subsection \<open>execute_all_enabled_scripts (lines 292-303)\<close>

text \<open>An entry of the batch result: a script's result, or the pin states under \<^verbatim>\<open>gpio_states\<close>.\<close>

datatype batch_entry = ScriptResult result | GpioStates pins

text \<open>The loop over \<^verbatim>\<open>self.engine.scripts.items()\<close>.\<close>

fun run_batch :: "'p \<Rightarrow> (string \<times> ('p, 'w) script) list \<Rightarrow> (string \<times> batch_entry) list \<Rightarrow>
    ('p, 'w) engine \<Rightarrow> (string \<times> batch_entry) list \<times> ('p, 'w) engine" where
  "run_batch data [] results e = (results, e)"
| "run_batch data ((script_id, s) # rest) results e =
     (if enabled s then
        (case execute_script script_id data e of
           (r, e') \<Rightarrow> run_batch data rest (AList.update script_id (ScriptResult r) results) e')
      else run_batch data rest results e)"

definition execute_all_enabled_scripts :: "'p \<Rightarrow> ('p, 'w) engine \<Rightarrow> (string \<times> batch_entry) list \<times> ('p, 'w) engine" where
  "execute_all_enabled_scripts data e =
     (case run_batch data (scripts e) [] e of
        (results, e') \<Rightarrow> (AList.update ''gpio_states'' (GpioStates (pin_states e')) results, e'))"

subsection \<open>Toggling a script (web_server.py, lines 204-227)\<close>

definition api_script_toggle :: "string \<Rightarrow> ('p, 'w) engine \<Rightarrow> bool \<times> ('p, 'w) engine" where
  "api_script_toggle script_id e =
     (case map_of (scripts e) script_id of
        None \<Rightarrow> (False, e)
      | Some s \<Rightarrow> (True, e\<lparr>scripts := AList.update script_id (s\<lparr>enabled := \<not> enabled s\<rparr>) (scripts e)\<rparr>))"

text \<open>Poll cycles: one batch per snapshot, in order.\<close>

definition run_cycles :: "'p list \<Rightarrow> ('p, 'w) engine \<Rightarrow> ('p, 'w) engine" where
  "run_cycles snapshots e = foldl (\<lambda>e data. snd (execute_all_enabled_scripts data e)) e snapshots"

subsection \<open>A batch in which a script raises, a script that is switched off\<close>

text \<open>
  The same code, except that a run which would raise returns \<open>r\<close> instead, with the same
  effects on the pins, the runtime state and the world.
\<close>

definition settle :: "result \<Rightarrow> ('p, 'w) code \<Rightarrow> ('p, 'w) code" where
  "settle r c =
     (case c of
        ExecRaises msg \<Rightarrow> Execute (\<lambda>data pins st w. (Returns r, pins, st, w))
      | NoExecute \<Rightarrow> NoExecute
      | Execute f \<Rightarrow>
          Execute (\<lambda>data pins st w.
            case f data pins st w of
              (Raises msg, effects) \<Rightarrow> (Returns r, effects)
            | (Returns v, effects) \<Rightarrow> (Returns v, effects)))"

definition settle_in :: "string \<Rightarrow> result \<Rightarrow> (string \<times> ('p, 'w) script) list \<Rightarrow> (string \<times> ('p, 'w) script) list" where
  "settle_in k r xs = map (\<lambda>(sid, s). (sid, if sid = k then s\<lparr>code := settle r (code s)\<rparr> else s)) xs"

definition settle_script :: "string \<Rightarrow> result \<Rightarrow> ('p, 'w) engine \<Rightarrow> ('p, 'w) engine" where
  "settle_script k r e = e\<lparr>scripts := settle_in k r (scripts e)\<rparr>"

text \<open>The run of script \<open>k\<close> on \<open>data\<close> in the engine \<open>e\<close> raises an exception with text \<open>msg\<close>.\<close>

definition raises_in :: "string \<Rightarrow> string \<Rightarrow> 'p \<Rightarrow> ('p, 'w) engine \<Rightarrow> bool" where
  "raises_in k msg data e =
     (case map_of (scripts e) k of
        None \<Rightarrow> False
      | Some s \<Rightarrow>
          enabled s \<and>
          (case code s of
             ExecRaises m \<Rightarrow> m = msg
           | NoExecute \<Rightarrow> False
           | Execute f \<Rightarrow>
               fst (f data (pin_states (prepare k s e))
                      (script_state k (script_states (prepare k s e))) (world (prepare k s e)))
                 = Raises msg))"

text \<open>The engine when the turn of script \<open>k\<close> comes in a batch.\<close>

definition turn_state :: "string \<Rightarrow> 'p \<Rightarrow> ('p, 'w) engine \<Rightarrow> ('p, 'w) engine" where
  "turn_state k data e = snd (run_batch data (takeWhile (\<lambda>(sid, s). sid \<noteq> k) (scripts e)) [] e)"

text \<open>Script \<open>k\<close> is switched off in the registry.\<close>

definition off :: "string \<Rightarrow> ('p, 'w) engine \<Rightarrow> bool" where
  "off k e \<longleftrightarrow> (\<forall>s. (k, s) \<in> set (scripts e) \<longrightarrow> \<not> enabled s)"

section \<open>ESP32ScriptEngine (ESP FilesBU/custom_scripts.py)\<close>

text \<open>
  The code of a script runs at top level with \<^verbatim>\<open>plc_data\<close>, \<^verbatim>\<open>gpio\<close>, \<^verbatim>\<open>time\<close>, \<^verbatim>\<open>print\<close> and
  the two write wrappers as its globals. A run changes what it can reach (the GPIO
  controller and, through the wrappers, the Modbus client: \<open>'g\<close>), takes some
  milliseconds, and either completes or raises an exception with a text. This engine
  keeps no runtime state per script.
\<close>

type_synonym ('p, 'g) esp_code = "'p \<Rightarrow> 'g \<Rightarrow> string option \<times> int \<times> 'g"

record ('p, 'g) esp_script =
  esp_name :: string
  esp_description :: string
  esp_enabled :: bool
  esp_code :: "('p, 'g) esp_code"

record ('p, 'g) esp_engine =
  esp_gpio :: 'g
  esp_scripts :: "(string \<times> ('p, 'g) esp_script) list"
  enabled_scripts :: "string set"

text \<open>
  The result of \<^verbatim>\<open>execute_script\<close>: the refusal of line 145, or the record with
  \<^verbatim>\<open>script_id\<close>, \<^verbatim>\<open>success\<close>, \<^verbatim>\<open>error\<close> and \<^verbatim>\<open>execution_time\<close>.
\<close>

datatype esp_result = NotFoundOrDisabled | Ran string bool "string option" int

definition esp_execute_script :: "string \<Rightarrow> 'p \<Rightarrow> ('p, 'g) esp_engine \<Rightarrow> esp_result \<times> ('p, 'g) esp_engine" where
  "esp_execute_script script_id data e =
     (case map_of (esp_scripts e) script_id of
        None \<Rightarrow> (NotFoundOrDisabled, e)
      | Some s \<Rightarrow>
          if script_id \<notin> enabled_scripts e then (NotFoundOrDisabled, e)
          else (case esp_code s data (esp_gpio e) of
                  (err, ms, g') \<Rightarrow> (Ran script_id (err = None) err ms, e\<lparr>esp_gpio := g'\<rparr>)))"

text \<open>
  \<^verbatim>\<open>execute_enabled_scripts\<close> (lines 179-195): the loop over \<^verbatim>\<open>list(self.enabled_scripts)\<close>,
  whose order \<open>order\<close> is that of the set. Of the returned dictionary only \<^verbatim>\<open>results\<close> is
  kept; the other entries are readings of the hardware.
\<close>

fun esp_run :: "'p \<Rightarrow> string list \<Rightarrow> (string \<times> esp_result) list \<Rightarrow> ('p, 'g) esp_engine \<Rightarrow>
    (string \<times> esp_result) list \<times> ('p, 'g) esp_engine" where
  "esp_run data [] results e = (results, e)"
| "esp_run data (script_id # rest) results e =
     (if map_of (esp_scripts e) script_id \<noteq> None then
        (case esp_execute_script script_id data e of
           (r, e') \<Rightarrow> esp_run data rest (AList.update script_id r results) e')
      else esp_run data rest results e)"

definition execute_enabled_scripts :: "string list \<Rightarrow> 'p \<Rightarrow> ('p, 'g) esp_engine \<Rightarrow>
    (string \<times> esp_result) list \<times> ('p, 'g) esp_engine" where
  "execute_enabled_scripts order data e = esp_run data order [] e"

text \<open>\<^verbatim>\<open>enable_script\<close> and \<^verbatim>\<open>disable_script\<close> (lines 217-231).\<close>

definition enable_script :: "string \<Rightarrow> ('p, 'g) esp_engine \<Rightarrow> bool \<times> ('p, 'g) esp_engine" where
  "enable_script script_id e =
     (case map_of (esp_scripts e) script_id of
        None \<Rightarrow> (False, e)
      | Some s \<Rightarrow>
          (True, e\<lparr>esp_scripts := AList.update script_id (s\<lparr>esp_enabled := True\<rparr>) (esp_scripts e),
                   enabled_scripts := insert script_id (enabled_scripts e)\<rparr>))"

definition disable_script :: "string \<Rightarrow> ('p, 'g) esp_engine \<Rightarrow> bool \<times> ('p, 'g) esp_engine" where
  "disable_script script_id e =
     (case map_of (esp_scripts e) script_id of
        None \<Rightarrow> (False, e)
      | Some s \<Rightarrow>
          (True, e\<lparr>esp_scripts := AList.update script_id (s\<lparr>esp_enabled := False\<rparr>) (esp_scripts e),
                   enabled_scripts := enabled_scripts e - {script_id}\<rparr>))"

subsection \<open>Example engines\<close>

text \<open>
  A registry of two scripts: one whose run raises, one that counts its runs in its
  runtime state and switches pin 18 on; each run takes one second. And an ESP32 engine
  with the status LED script.
\<close>

definition counter_script :: "(unit, unit) script" where
  "counter_script =
     \<lparr>name = ''Counter'', description = ''counts its runs'', enabled = True, gpio_pins = [18],
      code = Execute (\<lambda>p pins st w.
        (Returns (RDict [(''status'', PStr ''ok'')]),
         AList.update 18 \<lparr>pin_mode = ''output'', pin_value = True\<rparr> pins,
         AList.update ''n'' (case map_of st ''n'' of Some (PInt n) \<Rightarrow> PInt (n + 1) | _ \<Rightarrow> PInt 1) st,
         w\<lparr>clock := clock w + 1\<rparr>))\<rparr>"

definition failing_script :: "(unit, unit) script" where
  "failing_script =
     \<lparr>name = ''Broken'', description = ''raises'', enabled = True, gpio_pins = [],
      code = Execute (\<lambda>p pins st w. (Raises ''division by zero'', pins, st, w\<lparr>clock := clock w + 1\<rparr>))\<rparr>"

definition demo_engine :: "(unit, unit) engine" where
  "demo_engine = \<lparr>scripts = [(''broken'', failing_script), (''counter'', counter_script)],
      script_states = [], pin_states = [], world = \<lparr>clock = 100\<rparr>\<rparr>"

definition demo_esp_engine :: "(unit, unit) esp_engine" where
  "demo_esp_engine =
     \<lparr>esp_gpio = (),
      esp_scripts = [(''status_led'',
         \<lparr>esp_name = ''Status LED Blinker'', esp_description = ''Blinks built-in LED'',
          esp_enabled = True, esp_code = (\<lambda>data g. (None, 1, g))\<rparr>)],
      enabled_scripts = {''status_led''}\<rparr>"

section \<open>The state after a cycle\<close>

text \<open>
  The data of the ESP32 bridge after a cycle whose three decodes are given: the three
  stores in order, the time stamp, the scripts.
\<close>

definition polled :: "rat \<Rightarrow> 'r bridge \<Rightarrow> bool list option \<Rightarrow> bool list option \<Rightarrow> int list option \<Rightarrow> 'r plc_data" where
  "polled now b inputs coils registers =
     run_scripts (script_engine b) inputs
       ((store_registers registers (store_coils coils (store_inputs inputs (plc_data b))))\<lparr>last_update := now\<rparr>)"

text \<open>Shorthands for the data after a cycle, and for what a reader of the live status sees.\<close>

abbreviation after_poll_plc_data :: "rat \<Rightarrow> 'r bridge \<Rightarrow> 'r plc_data" where
  "after_poll_plc_data now b \<equiv> plc_data (snd (poll_plc_data now b))"

abbreviation status_view :: "communicator \<Rightarrow> snapshot" where
  "status_view s \<equiv> view s (plc_status s)"

abbreviation after_poll_data :: "poll_io \<Rightarrow> sim_draws \<Rightarrow> rat \<Rightarrow> communicator \<Rightarrow> snapshot" where
  "after_poll_data io draws now s \<equiv> status_view (snd (poll_data io draws now s))"

text \<open>Simulation without a client: what \<open>connect\<close> establishes when simulation is configured.\<close>

definition sim_inv :: "communicator \<Rightarrow> bool" where
  "sim_inv s \<longleftrightarrow> simulation_mode s \<and> client s = None"

text \<open>
  An example state: the communicator after \<open>__init__\<close> without simulation, a successful
  \<open>connect\<close>, and one poll at time 5 that read two coils and got error responses for
  the inputs and the registers.
\<close>

definition polled_communicator :: communicator where
  "polled_communicator =
     \<lparr>config =
        \<lparr>SIMULATION_MODE = False, POLL_INTERVAL = 1, CONNECTION_TYPE = ''serial'',
         SERIAL_PORT = ''/dev/ttyUSB0'', MODBUS_METHOD = ''rtu'', BAUD_RATE = 9600,
         DEVICE_ADDRESS_cfg = 1\<rparr>,
      MODBUS_AVAILABLE = True,
      client = Some (ModbusSerialClient ''/dev/ttyUSB0'' 9600),
      comm_connected = True,
      comm_last_update = Some 5,
      simulation_mode = False,
      simulation_counter = 0,
      plc_status = 0,
      statuses =
        [\<lparr>status_connected = True, status_last_update = Some 5, status_communication_errors = 0,
          data_registers_ref = 0, coil_status_ref = 4, input_status_ref = 2, system_info_ref = 3,
          data_age_seconds = None, data_fresh = None\<rparr>],
      dicts =
        [ [], [], [],
         [(''plc_model'', PStr ''AutomationDirect CLICK''), (''communication_type'', PStr ''rtu''),
          (''baud_rate'', PInt 9600), (''device_address'', PInt 1)],
         [(''Y000'', PBool True), (''Y001'', PBool False)]]\<rparr>"

section \<open>Properties of the codec\<close>

lemma crc_low_bit: "(x::int) AND 1 \<noteq> 0 \<longleftrightarrow> odd x"
  by (simp add: and_one_eq mod_2_eq_odd)

lemma uint_drop_bit_16: "uint (drop_bit 1 (a::16 word)) = drop_bit 1 (uint a)"
proof -
  have "uint a < 2 ^ 16" using uint_lt2p [of a] by simp
  then have "take_bit 16 (uint a) = uint a" by (simp add: take_bit_int_eq_self)
  then show ?thesis by (simp add: unsigned_drop_bit_eq)
qed

lemma odd_uint_16: "odd (uint (a::16 word)) \<longleftrightarrow> bit a 0"
  using bit_uint_iff [of a 0] by (simp add: bit_0)

lemma uint_poly: "uint (0xA001 :: 16 word) = 0xA001"
  by simp

lemma uint_spec_crc_shift: "uint (spec_crc_shift a) = crc_bit (uint a)"
  by (simp only: spec_crc_shift_def crc_bit_def crc_low_bit uint_xor uint_drop_bit_16
        odd_uint_16 uint_poly if_distrib [of uint])

lemma uint_spec_crc_pow: "uint ((spec_crc_shift ^^ n) a) = (crc_bit ^^ n) (uint a)"
  by (induction n) (simp_all add: uint_spec_crc_shift)

lemma uint_spec_crc_byte: "uint (spec_crc_byte a b) = crc_byte (uint a) b"
  by (simp add: spec_crc_byte_def crc_byte_def uint_spec_crc_pow uint_xor uint_up_ucast is_up)

lemma uint_foldl_spec_crc: "uint (foldl spec_crc_byte a bs) = foldl crc_byte (uint a) bs"
  by (induction bs arbitrary: a) (simp_all add: uint_spec_crc_byte)

lemma crc16_spec: "crc16 bs = uint (spec_crc16 bs)"
  by (simp add: crc16_def spec_crc16_def uint_foldl_spec_crc)

lemma crc16_range: "0 \<le> crc16 bs \<and> crc16 bs < 65536"
  using uint_lt2p [of "spec_crc16 bs"] by (simp add: crc16_spec)

text \<open>
  Claim C3. For every byte sequence, \<open>crc16\<close> is the Modbus CRC as the specification
  describes it (accumulator \<open>0xFFFF\<close>, each byte XORed into the low byte, eight
  conditional shift-and-XOR steps with \<open>0xA001\<close>), the result fits 16 bits, and on the
  vector \<open>01 03 00 00 00 0A\<close> it is \<open>0xCDC5\<close>, the CRC of the standard Modbus example
  frame \<open>01 03 00 00 00 0A C5 CD\<close> (low byte first on the wire).
\<close>

theorem C3_crc16_modbus:
  "crc16 bs = uint (spec_crc16 bs) \<and> crc16 [0x01, 0x03, 0x00, 0x00, 0x00, 0x0A] = 0xCDC5"
proof
  show "crc16 bs = uint (spec_crc16 bs)"
    by (rule crc16_spec)
  show "crc16 [0x01, 0x03, 0x00, 0x00, 0x00, 0x0A] = 0xCDC5"
    by code_simp
qed

subsection \<open>Decoding the bit payload\<close>

lemma inner_fold:
  "foldl (append_bit count b) bits is =
     bits @ take (nat count - length bits) (map (\<lambda>i. uint b AND push_bit i 1 \<noteq> 0) is)"
proof (induction "is" arbitrary: bits)
  case Nil
  then show ?case by simp
next
  case (Cons i "is")
  show ?case
  proof (cases "int (length bits) < count")
    case True
    then have n: "nat count - length bits = Suc (nat count - Suc (length bits))" by linarith
    from True have s: "append_bit count b bits i = bits @ [uint b AND push_bit i 1 \<noteq> 0]"
      by (simp add: append_bit_def)
    show ?thesis
      unfolding foldl.simps s Cons.IH n by simp
  next
    case False
    then have n: "nat count - length bits = 0" by linarith
    from False have s: "append_bit count b bits i = bits"
      by (simp add: append_bit_def)
    show ?thesis
      unfolding foldl.simps s Cons.IH n by simp
  qed
qed

lemma length_byte_bits: "length (byte_bits b) = 8"
  by (simp add: byte_bits_def)

lemma outer_fold:
  "foldl (\<lambda>bits byte_val. foldl (append_bit count byte_val) bits [0..<8]) bits bs =
     bits @ take (nat count - length bits) (concat (map byte_bits bs))"
proof (induction bs arbitrary: bits)
  case Nil
  then show ?case by simp
next
  case (Cons b bs)
  let ?k = "nat count - length bits"
  have in1: "foldl (append_bit count b) bits [0..<8] = bits @ take ?k (byte_bits b)"
    by (simp only: inner_fold byte_bits_def)
  have "length (bits @ take ?k (byte_bits b)) = length bits + min 8 ?k"
    by (simp add: length_byte_bits)
  then have k': "nat count - length (bits @ take ?k (byte_bits b)) = ?k - 8"
    by linarith
  have "foldl (\<lambda>bits byte_val. foldl (append_bit count byte_val) bits [0..<8]) bits (b # bs)
      = (bits @ take ?k (byte_bits b)) @ take (?k - 8) (concat (map byte_bits bs))"
    unfolding foldl.simps in1 Cons.IH k' ..
  also have "\<dots> = bits @ take ?k (byte_bits b @ concat (map byte_bits bs))"
    by (simp add: length_byte_bits)
  finally show ?case by simp
qed

lemma unpack_bits_eq: "unpack_bits count bs = take (nat count) (concat (map byte_bits bs))"
  by (simp add: unpack_bits_def outer_fold)

lemma bit_test: "(uint (b::byte) AND push_bit i 1 \<noteq> 0) = bit b i"
  by (auto simp: and_exp_eq_0_iff_not_bit bit_uint_iff dest: bit_imp_le_length)

lemma byte_bits_nth: "byte_bits b = map (bit b) [0..<8]"
  unfolding byte_bits_def bit_test ..

lemma byte_bits_of_bits:
  "length vs \<le> 8 \<Longrightarrow> byte_bits (byte_of_bits vs) = vs @ replicate (8 - length vs) False"
  by (rule nth_equalityI)
     (auto simp: byte_bits_nth byte_of_bits_def bit_horner_sum_bit_word_iff nth_append)

lemma take_append_exact: "length c = n \<Longrightarrow> take (n + k) (c @ r) = c @ take k r"
  by simp

lemma all_bits_pack: "take (length vs) (concat (map byte_bits (pack_bits vs))) = vs"
proof (induction vs rule: pack_bits.induct)
  case 1
  then show ?case by simp
next
  case (2 v vs)
  let ?c = "take 8 (v # vs)"
  let ?rest = "concat (map byte_bits (pack_bits (drop 7 vs)))"
  have c: "byte_bits (byte_of_bits ?c) = ?c @ replicate (8 - length ?c) False"
    by (rule byte_bits_of_bits) simp
  have unf: "concat (map byte_bits (pack_bits (v # vs))) = byte_bits (byte_of_bits ?c) @ ?rest"
    by (simp del: take_Suc_Cons)
  show ?case
  proof (cases "7 \<le> length vs")
    case True
    then have l: "length ?c = 8" by simp
    with c have c': "byte_bits (byte_of_bits ?c) = ?c" by simp
    from True have n: "length (v # vs) = 8 + length (drop 7 vs)" by simp
    have "take (length (v # vs)) (concat (map byte_bits (pack_bits (v # vs))))
        = ?c @ take (length (drop 7 vs)) ?rest"
      unfolding unf c' n by (rule take_append_exact [OF l])
    also have "\<dots> = ?c @ drop 7 vs" by (simp only: "2.IH")
    also have "\<dots> = v # vs" by simp
    finally show ?thesis .
  next
    case False
    then have d: "drop 7 vs = []" and t: "?c = v # vs" by simp_all
    have "concat (map byte_bits (pack_bits (v # vs))) = (v # vs) @ replicate (8 - length (v # vs)) False"
      unfolding unf d using c unfolding t by simp
    then show ?thesis by simp
  qed
qed

lemma length_pack_bits: "length (pack_bits vs) = (length vs + 7) div 8"
  by (induction vs rule: pack_bits.induct) auto

subsection \<open>Request frames\<close>

lemma uint_byte_of_int: "0 \<le> n \<Longrightarrow> n < 256 \<Longrightarrow> uint (word_of_int n :: byte) = n"
  by (simp add: uint_word_of_int)

lemma unat_byte_of_nat: "n < 256 \<Longrightarrow> unat (word_of_nat n :: byte) = n"
  by (simp add: unat_of_nat)

lemma div256_range: "0 \<le> (x::int) \<Longrightarrow> x < 65536 \<Longrightarrow> 0 \<le> x div 256 \<and> x div 256 < 256"
  by arith

lemma build_request_bytes:
  assumes "0 \<le> slave_id" "slave_id < 256" "0 \<le> function_code" "function_code < 256"
    and "0 \<le> start_addr" "start_addr < 65536" "0 \<le> count" "count < 65536"
  shows "\<exists>request. build_request slave_id function_code start_addr count = Inr request \<and>
           map uint request =
             [slave_id, function_code, start_addr div 256, start_addr mod 256,
              count div 256, count mod 256,
              crc16 (take 6 request) mod 256, crc16 (take 6 request) div 256]"
proof -
  let ?body = "[word_of_int slave_id, word_of_int function_code,
                word_of_int (start_addr div 256), word_of_int (start_addr mod 256),
                word_of_int (count div 256), word_of_int (count mod 256)] :: byte list"
  let ?crc = "crc16 ?body"
  have r: "0 \<le> ?crc" "?crc < 65536" using crc16_range [of ?body] by simp_all
  have b: "build_request slave_id function_code start_addr count =
             Inr (?body @ [word_of_int (?crc mod 256), word_of_int (?crc div 256)])"
    using assms r by (simp add: build_request_def bytearray2_def to_bytes2_big_def to_bytes2_little_def Let_def)
  have u: "uint (word_of_int slave_id :: byte) = slave_id"
    "uint (word_of_int function_code :: byte) = function_code"
    "uint (word_of_int (start_addr div 256) :: byte) = start_addr div 256"
    "uint (word_of_int (count div 256) :: byte) = count div 256"
    "uint (word_of_int (?crc div 256) :: byte) = ?crc div 256"
    using assms(1-4) div256_range [OF assms(5,6)] div256_range [OF assms(7,8)] div256_range [OF r]
    by (simp_all only: uint_byte_of_int)
  have v: "uint (word_of_int (start_addr mod 256) :: byte) = start_addr mod 256"
    "uint (word_of_int (count mod 256) :: byte) = count mod 256"
    "uint (word_of_int (?crc mod 256) :: byte) = ?crc mod 256"
    by (simp_all add: uint_byte_of_int)
  have t: "take 6 (?body @ [word_of_int (?crc mod 256), word_of_int (?crc div 256)]) = ?body"
    by simp
  show ?thesis
  proof (intro exI conjI)
    show "build_request slave_id function_code start_addr count =
            Inr (?body @ [word_of_int (?crc mod 256), word_of_int (?crc div 256)])"
      by (rule b)
    show "map uint (?body @ [word_of_int (?crc mod 256), word_of_int (?crc div 256)]) =
            [slave_id, function_code, start_addr div 256, start_addr mod 256,
             count div 256, count mod 256,
             crc16 (take 6 (?body @ [word_of_int (?crc mod 256), word_of_int (?crc div 256)])) mod 256,
             crc16 (take 6 (?body @ [word_of_int (?crc mod 256), word_of_int (?crc div 256)])) div 256]"
      unfolding t by (simp only: list.map append.simps u v)
  qed
qed

lemma build_request_ok:
  assumes "0 \<le> slave_id" "slave_id < 256" "0 \<le> function_code" "function_code < 256"
    and "0 \<le> start_addr" "start_addr < 65536" "0 \<le> count" "count < 65536"
  shows "\<exists>request. build_request slave_id function_code start_addr count = Inr request"
  using build_request_bytes [OF assms] by blast

lemma bits_roundtrip:
  assumes s: "0 \<le> slave_id" "slave_id < 256" and f: "0 \<le> function_code" "function_code < 256"
    and c: "0 \<le> count" "count \<le> 16" and l: "length vals = nat count"
  shows "bits_response function_code slave_id count (bits_frame slave_id function_code vals) = Some vals"
proof -
  let ?p = "pack_bits vals"
  let ?hdr = "[word_of_int slave_id, word_of_int function_code, word_of_nat (length ?p)] :: byte list"
  let ?body = "?hdr @ ?p"
  let ?k = "[word_of_int (crc16 ?body mod 256), word_of_int (crc16 ?body div 256)] :: byte list"
  have fr: "bits_frame slave_id function_code vals = ?hdr @ ?p @ ?k"
    by (simp add: bits_frame_def with_crc_def)
  have lp: "length ?p < 256" using c l by (simp add: length_pack_bits)
  have bc: "unat (word_of_nat (length ?p) :: byte) = length ?p"
    by (rule unat_byte_of_nat [OF lp])
  have u: "unpack_bits count ?p = vals"
    using all_bits_pack [of vals] by (simp add: unpack_bits_eq l)
  show ?thesis
    unfolding fr bits_response_def using s f
    by (simp add: uint_byte_of_int bc u l)
qed

subsection \<open>Register payloads\<close>

lemma regs_payload_length: "length (regs_payload vals) = 2 * length vals"
  by (induction vals) (simp_all add: regs_payload_def)

lemma regs_payload_nth:
  "k < length vals \<Longrightarrow>
     regs_payload vals ! (2 * k) = word_of_int (vals ! k div 256) \<and>
     regs_payload vals ! (2 * k + 1) = word_of_int (vals ! k mod 256)"
proof (induction vals arbitrary: k)
  case Nil
  then show ?case by simp
next
  case (Cons v vs)
  show ?case
  proof (cases k)
    case 0
    then show ?thesis by (simp add: regs_payload_def)
  next
    case (Suc j)
    with Cons.prems have "j < length vs" by simp
    from Cons.IH [OF this] show ?thesis
      using Suc by (simp add: regs_payload_def)
  qed
qed

lemma join_bytes: "0 \<le> v \<Longrightarrow> v < 65536 \<Longrightarrow> push_bit 8 (v div 256) OR (v mod 256) = (v::int)"
proof -
  have "push_bit 8 (v div 256) OR (v mod 256) = push_bit 8 (drop_bit 8 v) OR take_bit 8 v"
    by (simp add: drop_bit_eq_div take_bit_eq_mod)
  also have "\<dots> = v"
    by (rule bit_eqI) (auto simp: bit_simps)
  finally show ?thesis .
qed

lemma uint_byte_mod: "uint (word_of_int (v mod 256) :: byte) = v mod 256"
  by (simp add: uint_byte_of_int)

lemma reg_val_frame:
  assumes k: "k < length vals" and v: "0 \<le> vals ! k" "vals ! k < 65536" and h: "length hdr3 = 3"
  shows "reg_val (hdr3 @ regs_payload vals @ crc) (2 * k) = Inr (vals ! k)"
proof -
  let ?r = "hdr3 @ regs_payload vals @ crc"
  from k have i: "2 * k < length (regs_payload vals)" "2 * k + 1 < length (regs_payload vals)"
    by (simp_all add: regs_payload_length)
  have n0: "?r ! (3 + 2 * k) = regs_payload vals ! (2 * k)"
    using h i by (simp add: nth_append)
  have n1: "?r ! (3 + 2 * k + 1) = regs_payload vals ! (2 * k + 1)"
    using h i by (simp add: nth_append)
  have l: "3 + 2 * k < length ?r" "3 + 2 * k + 1 < length ?r"
    using h i by simp_all
  have hi: "uint (word_of_int (vals ! k div 256) :: byte) = vals ! k div 256"
    using div256_range [OF v] by (simp only: uint_byte_of_int)
  show ?thesis
    unfolding reg_val_def byte_at_def
    using l by (simp only: if_True n0 n1 regs_payload_nth [OF k] sum.case hi uint_byte_mod join_bytes [OF v])
qed

lemma collect_regs_frame:
  assumes r: "\<forall>v\<in>set vals. 0 \<le> v \<and> v < 65536" and h: "length hdr3 = 3"
    and ks: "\<forall>k\<in>set ks. k < length vals"
  shows "collect_regs (hdr3 @ regs_payload vals @ crc) (map (\<lambda>k. 2 * k) ks) acc
           = Inr (acc @ map (\<lambda>k. vals ! k) ks)"
  using ks
proof (induction ks arbitrary: acc)
  case Nil
  then show ?case by simp
next
  case (Cons k ks)
  then have k: "k < length vals" by simp
  with r have v: "0 \<le> vals ! k" "vals ! k < 65536" by simp_all
  show ?case
    using Cons by (simp add: reg_val_frame [OF k v h])
qed

lemma registers_roundtrip:
  assumes s: "0 \<le> slave_id" "slave_id < 256"
    and l: "length vals \<le> 16" and r: "\<forall>v\<in>set vals. 0 \<le> v \<and> v < 65536"
  shows "registers_response slave_id (registers_frame slave_id vals) = Some vals"
proof -
  let ?hdr = "[word_of_int slave_id, 0x03, word_of_nat (2 * length vals)] :: byte list"
  let ?body = "?hdr @ regs_payload vals"
  let ?k = "[word_of_int (crc16 ?body mod 256), word_of_int (crc16 ?body div 256)] :: byte list"
  have fr: "registers_frame slave_id vals = ?hdr @ regs_payload vals @ ?k"
    by (simp add: registers_frame_def with_crc_def)
  have bc: "unat (word_of_nat (2 * length vals) :: byte) = 2 * length vals"
    using l by (intro unat_byte_of_nat) simp
  have bc': "(?hdr @ regs_payload vals @ ?k) ! 2 = word_of_nat (2 * length vals)"
    by simp
  have rg: "range2 (2 * length vals) = map (\<lambda>k. 2 * k) [0..<length vals]"
    by (simp add: range2_def)
  have c: "collect_regs (?hdr @ regs_payload vals @ ?k) (range2 (2 * length vals)) [] = Inr vals"
    unfolding rg using collect_regs_frame [OF r, of ?hdr "[0..<length vals]" ?k "[]"]
    by (simp add: map_nth)
  have len: "length (?hdr @ regs_payload vals @ ?k) = 3 + 2 * length vals + 2"
    by (simp add: regs_payload_length)
  have h0: "uint ((?hdr @ regs_payload vals @ ?k) ! 0) = slave_id"
    using s by (simp add: uint_byte_of_int)
  have h1: "uint ((?hdr @ regs_payload vals @ ?k) ! 1) = 3"
    by simp
  show ?thesis
    unfolding fr registers_response_def bc' bc Let_def c h0 h1 len
    by simp
qed

subsection \<open>Reading from the UART\<close>

lemma read_bits_data:
  assumes "build_request slave_id function_code start_addr count = Inr request"
  shows "fst (read_bits function_code (u\<lparr>rx := RxData response # rest\<rparr>) slave_id start_addr count)
           = bits_response function_code slave_id count response"
  using assms by (simp add: read_bits_def uart_read_def uart_write_def)

lemma read_holding_registers_data:
  assumes "build_request slave_id 0x03 start_addr count = Inr request"
  shows "fst (read_holding_registers (u\<lparr>rx := RxData response # rest\<rparr>) slave_id start_addr count)
           = registers_response slave_id response"
  using assms by (simp add: read_holding_registers_def uart_read_def uart_write_def)

lemma registers_response_short:
  "length response < 3 + unat (response ! 2) + 2 \<Longrightarrow> registers_response slave_id response = None"
  by (simp add: registers_response_def Let_def)

lemma registers_response_mismatch:
  "uint (response ! 0) \<noteq> slave_id \<or> uint (response ! 1) \<noteq> 0x03 \<Longrightarrow>
     registers_response slave_id response = None"
  by (auto simp: registers_response_def)

lemma bits_response_mismatch:
  "uint (response ! 0) \<noteq> slave_id \<or> uint (response ! 1) \<noteq> function_code \<Longrightarrow>
     bits_response function_code slave_id count response = None"
  by (auto simp: bits_response_def)

lemma bits_response_below_5:
  "length response < 5 \<Longrightarrow> bits_response function_code slave_id count response = None"
  by (simp add: bits_response_def)

text \<open>
  Claim C2. A buffer shorter than \<open>3 + byte_count + 2\<close> bytes must decode to nothing in
  all three readers. \<open>read_holding_registers\<close> checks the length (lemma
  \<open>registers_response_short\<close>) and all three reject a wrong slave id or function code,
  but \<open>read_coils\<close> and \<open>read_discrete_inputs\<close> have no such check: given the first
  five bytes of a seven-byte answer (declared byte count 2, CRC missing) they decode
  sixteen values, where the register reader returns \<^verbatim>\<open>None\<close> on the same truncation.
\<close>

theorem C2_truncated_frame_is_decoded:
  "length [0x01, 0x01, 0x02, 0xAA, 0x55 :: byte] < 3 + unat ([0x01, 0x01, 0x02, 0xAA, 0x55 :: byte] ! 2) + 2
   \<and> fst (read_coils \<lparr>tx = [], rx = [RxData [0x01, 0x01, 0x02, 0xAA, 0x55]]\<rparr> 1 0 16)
       = Some [False, True, False, True, False, True, False, True,
               True, False, True, False, True, False, True, False]
   \<and> fst (read_discrete_inputs \<lparr>tx = [], rx = [RxData [0x01, 0x02, 0x02, 0xAA, 0x55]]\<rparr> 1 0 16)
       = Some [False, True, False, True, False, True, False, True,
               True, False, True, False, True, False, True, False]
   \<and> fst (read_holding_registers \<lparr>tx = [], rx = [RxData [0x01, 0x03, 0x02, 0xAA, 0x55]]\<rparr> 1 0 1) = None"
  by code_simp

text \<open>
  Claim C8. For every count from 1 to 16 and every list of values of that length, reading
  a well-formed synthetic response gives back exactly the encoded values: the booleans
  for function codes 1 and 2, the 16-bit integers for function code 3; and
  \<open>build_request\<close> produces the eight bytes slave, function, address high and low, count
  high and low, CRC low and high.
\<close>

theorem C8_roundtrip:
  assumes c: "1 \<le> count" "count \<le> 16"
    and s: "0 \<le> slave_id" "slave_id < 256"
    and a: "0 \<le> start_addr" "start_addr < 65536"
    and f: "0 \<le> function_code" "function_code < 256"
    and b: "length bvals = nat count"
    and r: "length rvals = nat count" "\<forall>v\<in>set rvals. 0 \<le> v \<and> v < 65536"
  shows "fst (read_coils (u\<lparr>rx := RxData (bits_frame slave_id 0x01 bvals) # rest\<rparr>)
                slave_id start_addr count) = Some bvals
       \<and> fst (read_discrete_inputs (u\<lparr>rx := RxData (bits_frame slave_id 0x02 bvals) # rest\<rparr>)
                slave_id start_addr count) = Some bvals
       \<and> fst (read_holding_registers (u\<lparr>rx := RxData (registers_frame slave_id rvals) # rest\<rparr>)
                slave_id start_addr count) = Some rvals
       \<and> (\<exists>request. build_request slave_id function_code start_addr count = Inr request \<and>
             map uint request =
               [slave_id, function_code, start_addr div 256, start_addr mod 256,
                count div 256, count mod 256,
                crc16 (take 6 request) mod 256, crc16 (take 6 request) div 256])"
proof -
  from c have c': "0 \<le> count" "count < 65536" by simp_all
  obtain q1 where q1: "build_request slave_id 0x01 start_addr count = Inr q1"
    using build_request_ok [OF s _ _ a c', of "0x01"] by auto
  obtain q2 where q2: "build_request slave_id 0x02 start_addr count = Inr q2"
    using build_request_ok [OF s _ _ a c', of "0x02"] by auto
  obtain q3 where q3: "build_request slave_id 0x03 start_addr count = Inr q3"
    using build_request_ok [OF s _ _ a c', of "0x03"] by auto
  have 1: "fst (read_coils (u\<lparr>rx := RxData (bits_frame slave_id 0x01 bvals) # rest\<rparr>)
                slave_id start_addr count) = Some bvals"
    unfolding read_coils_def read_bits_data [OF q1]
    by (rule bits_roundtrip [OF s _ _ c'(1) c(2) b]) simp_all
  have 2: "fst (read_discrete_inputs (u\<lparr>rx := RxData (bits_frame slave_id 0x02 bvals) # rest\<rparr>)
                slave_id start_addr count) = Some bvals"
    unfolding read_discrete_inputs_def read_bits_data [OF q2]
    by (rule bits_roundtrip [OF s _ _ c'(1) c(2) b]) simp_all
  from r(1) c have lr: "length rvals \<le> 16" by simp
  have 3: "fst (read_holding_registers (u\<lparr>rx := RxData (registers_frame slave_id rvals) # rest\<rparr>)
                slave_id start_addr count) = Some rvals"
    unfolding read_holding_registers_data [OF q3]
    by (rule registers_roundtrip [OF s lr r(2)])
  from 1 2 3 build_request_bytes [OF s f a c'] show ?thesis by blast
qed

theorem C8_roundtrip_witness:
  "fst (read_coils \<lparr>tx = [], rx = [RxData (bits_frame 1 0x01 [True, False, True])]\<rparr> 1 0 3)
     = Some [True, False, True]
   \<and> fst (read_discrete_inputs \<lparr>tx = [], rx = [RxData (bits_frame 1 0x02 [True, False, True])]\<rparr> 1 0 3)
     = Some [True, False, True]
   \<and> fst (read_holding_registers \<lparr>tx = [], rx = [RxData (registers_frame 1 [1000, 65535, 0])]\<rparr> 1 0 3)
     = Some [1000, 65535, 0]"
  using C8_roundtrip [where count = 3 and slave_id = 1 and start_addr = 0 and function_code = 3
      and bvals = "[True, False, True]" and rvals = "[1000, 65535, 0]"
      and u = "\<lparr>tx = [], rx = []\<rparr>" and rest = "[]"]
  by simp

section \<open>Properties of the polling engines\<close>

subsection \<open>ESP32: poll_plc_data\<close>

lemma poll_plc_data_reads:
  assumes "modbus b = Some u" and "poll_reads u = (inputs, coils, registers)"
  shows "fst (poll_plc_data now b) = (truthy inputs \<or> truthy coils \<or> truthy registers)"
    and "plc_data (snd (poll_plc_data now b)) =
           (if truthy inputs \<or> truthy coils \<or> truthy registers then polled now b inputs coils registers
            else (polled now b inputs coils registers)
                   \<lparr>communication_errors := communication_errors (polled now b inputs coils registers) + 1\<rparr>)"
  using assms
  by (auto simp: poll_plc_data_def poll_reads_def polled_def Let_def split: prod.splits)

lemma run_scripts_fields:
  "input_status (run_scripts e i d) = input_status d"
  "digital_inputs (run_scripts e i d) = digital_inputs d"
  "coil_status (run_scripts e i d) = coil_status d"
  "digital_outputs (run_scripts e i d) = digital_outputs d"
  "data_registers (run_scripts e i d) = data_registers d"
  "communication_errors (run_scripts e i d) = communication_errors d"
  "last_update (run_scripts e i d) = last_update d"
  "connected (run_scripts e i d) = connected d"
  by (simp_all add: run_scripts_def split: option.splits)

lemma store_inputs_fields:
  "input_status (store_inputs i d) = (if truthy i then input_status_of (the i) else input_status d)"
  "digital_inputs (store_inputs i d) = (if truthy i then numbered_of (the i) else digital_inputs d)"
  "coil_status (store_inputs i d) = coil_status d"
  "digital_outputs (store_inputs i d) = digital_outputs d"
  "data_registers (store_inputs i d) = data_registers d"
  "communication_errors (store_inputs i d) = communication_errors d"
  by (simp_all add: store_inputs_def truthy_def split: option.splits)

lemma store_coils_fields:
  "input_status (store_coils c d) = input_status d"
  "digital_inputs (store_coils c d) = digital_inputs d"
  "coil_status (store_coils c d) = (if truthy c then coil_status_of (the c) else coil_status d)"
  "digital_outputs (store_coils c d) = (if truthy c then numbered_of (the c) else digital_outputs d)"
  "data_registers (store_coils c d) = data_registers d"
  "communication_errors (store_coils c d) = communication_errors d"
  by (simp_all add: store_coils_def truthy_def split: option.splits)

lemma store_registers_fields:
  "input_status (store_registers r d) = input_status d"
  "digital_inputs (store_registers r d) = digital_inputs d"
  "coil_status (store_registers r d) = coil_status d"
  "digital_outputs (store_registers r d) = digital_outputs d"
  "data_registers (store_registers r d) = (if truthy r then data_registers_of (the r) else data_registers d)"
  "communication_errors (store_registers r d) = communication_errors d"
  by (simp_all add: store_registers_def truthy_def split: option.splits)

lemmas polled_simps = polled_def run_scripts_fields store_inputs_fields store_coils_fields store_registers_fields

lemma esp_groups:
  assumes m: "modbus b = Some u" and r: "poll_reads u = (inputs, coils, registers)"
  shows "input_status (plc_data (snd (poll_plc_data now b))) =
           (if truthy inputs then input_status_of (the inputs) else input_status (plc_data b))"
    and "digital_inputs (plc_data (snd (poll_plc_data now b))) =
           (if truthy inputs then numbered_of (the inputs) else digital_inputs (plc_data b))"
    and "coil_status (plc_data (snd (poll_plc_data now b))) =
           (if truthy coils then coil_status_of (the coils) else coil_status (plc_data b))"
    and "digital_outputs (plc_data (snd (poll_plc_data now b))) =
           (if truthy coils then numbered_of (the coils) else digital_outputs (plc_data b))"
    and "data_registers (plc_data (snd (poll_plc_data now b))) =
           (if truthy registers then data_registers_of (the registers) else data_registers (plc_data b))"
  unfolding poll_plc_data_reads(2) [OF m r] by (simp_all add: polled_simps)

lemma esp_errors:
  assumes m: "modbus b = Some u" and r: "poll_reads u = (inputs, coils, registers)"
  shows "communication_errors (plc_data (snd (poll_plc_data now b))) =
           communication_errors (plc_data b) + (if truthy inputs \<or> truthy coils \<or> truthy registers then 0 else 1)"
  unfolding poll_plc_data_reads(2) [OF m r] by (simp add: polled_simps)

lemma esp_last_update:
  assumes m: "modbus b = Some u"
  shows "last_update (plc_data (snd (poll_plc_data now b))) = now"
proof -
  obtain i c r where r: "poll_reads u = (i, c, r)" by (cases "poll_reads u") auto
  show ?thesis
    unfolding poll_plc_data_reads(2) [OF m r] by (simp add: polled_def run_scripts_fields)
qed

lemma esp_no_modbus: "modbus b = None \<Longrightarrow> poll_plc_data now b = (False, b)"
  by (simp add: poll_plc_data_def)

subsection \<open>Raspberry Pi: poll_data\<close>

lemma live_update_live:
  "plc_status s < length (statuses s) \<Longrightarrow> live (update_live f s) = f (live s)"
  by (simp add: live_def update_live_def)

lemma update_live_fields:
  "dicts (update_live f s) = dicts s"
  "plc_status (update_live f s) = plc_status s"
  "length (statuses (update_live f s)) = length (statuses s)"
  "client (update_live f s) = client s"
  "simulation_mode (update_live f s) = simulation_mode s"
  "comm_connected (update_live f s) = comm_connected s"
  "comm_last_update (update_live f s) = comm_last_update s"
  "config (update_live f s) = config s"
  by (simp_all add: update_live_def)

lemma views_live:
  "snap_coil_status (view s (plc_status s)) = dicts s ! coil_status_ref (live s)"
  "snap_input_status (view s (plc_status s)) = dicts s ! input_status_ref (live s)"
  "snap_data_registers (view s (plc_status s)) = dicts s ! data_registers_ref (live s)"
  "snap_communication_errors (view s (plc_status s)) = status_communication_errors (live s)"
  "snap_last_update (view s (plc_status s)) = status_last_update (live s)"
  by (simp_all add: view_def live_def Let_def)

lemma store_coil_status_facts:
  assumes "well_formed s"
  shows "well_formed (store_coil_status bits s)"
    and "dicts (store_coil_status bits s) ! coil_status_ref (live (store_coil_status bits s)) = coil_status_dict bits"
    and "dicts (store_coil_status bits s) ! input_status_ref (live (store_coil_status bits s)) = dicts s ! input_status_ref (live s)"
    and "dicts (store_coil_status bits s) ! data_registers_ref (live (store_coil_status bits s)) = dicts s ! data_registers_ref (live s)"
    and "status_communication_errors (live (store_coil_status bits s)) = status_communication_errors (live s)"
    and "status_last_update (live (store_coil_status bits s)) = status_last_update (live s)"
    and "comm_last_update (store_coil_status bits s) = comm_last_update s"
  using assms
  by (simp_all add: well_formed_def store_coil_status_def new_dict_def live_def update_live_def nth_append)

lemma store_input_status_facts:
  assumes "well_formed s"
  shows "well_formed (store_input_status bits s)"
    and "dicts (store_input_status bits s) ! coil_status_ref (live (store_input_status bits s)) = dicts s ! coil_status_ref (live s)"
    and "dicts (store_input_status bits s) ! input_status_ref (live (store_input_status bits s)) = input_status_dict bits"
    and "dicts (store_input_status bits s) ! data_registers_ref (live (store_input_status bits s)) = dicts s ! data_registers_ref (live s)"
    and "status_communication_errors (live (store_input_status bits s)) = status_communication_errors (live s)"
    and "status_last_update (live (store_input_status bits s)) = status_last_update (live s)"
    and "comm_last_update (store_input_status bits s) = comm_last_update s"
  using assms
  by (simp_all add: well_formed_def store_input_status_def new_dict_def live_def update_live_def nth_append)

lemma store_data_registers_facts:
  assumes "well_formed s"
  shows "well_formed (store_data_registers regs s)"
    and "dicts (store_data_registers regs s) ! coil_status_ref (live (store_data_registers regs s)) = dicts s ! coil_status_ref (live s)"
    and "dicts (store_data_registers regs s) ! input_status_ref (live (store_data_registers regs s)) = dicts s ! input_status_ref (live s)"
    and "dicts (store_data_registers regs s) ! data_registers_ref (live (store_data_registers regs s)) = data_registers_dict regs"
    and "status_communication_errors (live (store_data_registers regs s)) = status_communication_errors (live s)"
    and "status_last_update (live (store_data_registers regs s)) = status_last_update (live s)"
    and "comm_last_update (store_data_registers regs s) = comm_last_update s"
  using assms
  by (simp_all add: well_formed_def store_data_registers_def new_dict_def live_def update_live_def nth_append)

lemma poll_failed_facts:
  assumes "well_formed s"
  shows "fst (poll_failed s) = False"
    and "dicts (snd (poll_failed s)) ! coil_status_ref (live (snd (poll_failed s))) = dicts s ! coil_status_ref (live s)"
    and "dicts (snd (poll_failed s)) ! input_status_ref (live (snd (poll_failed s))) = dicts s ! input_status_ref (live s)"
    and "dicts (snd (poll_failed s)) ! data_registers_ref (live (snd (poll_failed s))) = dicts s ! data_registers_ref (live s)"
    and "status_communication_errors (live (snd (poll_failed s))) = status_communication_errors (live s) + 1"
    and "status_last_update (live (snd (poll_failed s))) = status_last_update (live s)"
    and "comm_last_update (snd (poll_failed s)) = comm_last_update s"
  using assms
  by (simp_all add: well_formed_def poll_failed_def live_def update_live_def)

lemma poll_done_facts:
  assumes "well_formed s"
  shows "fst (poll_done now s) = True"
    and "dicts (snd (poll_done now s)) ! coil_status_ref (live (snd (poll_done now s))) = dicts s ! coil_status_ref (live s)"
    and "dicts (snd (poll_done now s)) ! input_status_ref (live (snd (poll_done now s))) = dicts s ! input_status_ref (live s)"
    and "dicts (snd (poll_done now s)) ! data_registers_ref (live (snd (poll_done now s))) = dicts s ! data_registers_ref (live s)"
    and "status_communication_errors (live (snd (poll_done now s))) = status_communication_errors (live s)"
    and "status_last_update (live (snd (poll_done now s))) = Some now"
    and "comm_last_update (snd (poll_done now s)) = Some now"
  using assms
  by (simp_all add: well_formed_def poll_done_def live_def update_live_def)

lemmas rpi_facts = store_coil_status_facts store_input_status_facts store_data_registers_facts
  poll_failed_facts poll_done_facts


lemma poll_data_real:
  assumes "comm_connected s" "\<not> simulation_mode s" "client s \<noteq> None" "MODBUS_AVAILABLE s"
  shows "poll_data io draws now s =
    (case coil_result io of
           MbRaise e \<Rightarrow> poll_failed s
         | r1 \<Rightarrow>
            (let s1 = (case r1 of MbValue bits \<Rightarrow> store_coil_status bits s | _ \<Rightarrow> s) in
             case input_result io of
               MbRaise e \<Rightarrow> poll_failed s1
             | r2 \<Rightarrow>
                (let s2 = (case r2 of MbValue bits \<Rightarrow> store_input_status bits s1 | _ \<Rightarrow> s1) in
                 case register_result io of
                   MbRaise e \<Rightarrow> poll_failed s2
                 | r3 \<Rightarrow>
                    (let s3 = (case r3 of MbValue regs \<Rightarrow> store_data_registers regs s2 | _ \<Rightarrow> s2)
                     in poll_done now s3))))"
  using assms by (cases "client s") (simp_all add: poll_data_def)



lemma rpi_groups:
  assumes w: "well_formed s" and r: "comm_connected s" "\<not> simulation_mode s" "client s \<noteq> None" "MODBUS_AVAILABLE s"
  shows "snap_coil_status (after_poll_data io draws now s) =
           (case coil_result io of MbValue bits \<Rightarrow> coil_status_dict bits
            | _ \<Rightarrow> snap_coil_status (status_view s))"
    and "snap_input_status (after_poll_data io draws now s) =
           (if raised (coil_result io) then snap_input_status (status_view s)
            else case input_result io of MbValue bits \<Rightarrow> input_status_dict bits
                 | _ \<Rightarrow> snap_input_status (status_view s))"
    and "snap_data_registers (after_poll_data io draws now s) =
           (if raised (coil_result io) \<or> raised (input_result io) then snap_data_registers (status_view s)
            else case register_result io of MbValue registers \<Rightarrow> data_registers_dict registers
                 | _ \<Rightarrow> snap_data_registers (status_view s))"
  unfolding poll_data_real [OF r] views_live
  using w
  by (auto simp: rpi_facts Let_def raised_def split: mb_result.splits)

lemma rpi_errors:
  assumes w: "well_formed s" and r: "comm_connected s" "\<not> simulation_mode s" "client s \<noteq> None" "MODBUS_AVAILABLE s"
  shows "snap_communication_errors (after_poll_data io draws now s) =
           snap_communication_errors (status_view s) +
             (if raised (coil_result io) \<or> raised (input_result io) \<or> raised (register_result io) then 1 else 0)"
  unfolding poll_data_real [OF r] views_live
  using w
  by (auto simp: rpi_facts Let_def raised_def split: mb_result.splits)

lemma rpi_returns:
  assumes w: "well_formed s" and r: "comm_connected s" "\<not> simulation_mode s" "client s \<noteq> None" "MODBUS_AVAILABLE s"
  shows "fst (poll_data io draws now s) =
           (\<not> (raised (coil_result io) \<or> raised (input_result io) \<or> raised (register_result io)))"
  unfolding poll_data_real [OF r]
  using w
  by (auto simp: rpi_facts Let_def raised_def split: mb_result.splits)

lemma rpi_last_update:
  assumes w: "well_formed s" and r: "comm_connected s" "\<not> simulation_mode s" "client s \<noteq> None" "MODBUS_AVAILABLE s"
  shows "snap_last_update (after_poll_data io draws now s) =
           (if fst (poll_data io draws now s) then Some now else snap_last_update (status_view s))"
  unfolding poll_data_real [OF r] views_live
  using w
  by (auto simp: rpi_facts Let_def raised_def split: mb_result.splits)

subsection \<open>The claims about a poll cycle\<close>

text \<open>
  Claim C1. A poll must return true exactly when at least one of the three groups
  succeeded, and \<^verbatim>\<open>last_update\<close> must be set only in a cycle that returns true. Each engine
  keeps one half and misses the other. On the ESP32, a cycle in which all three reads
  time out returns \<^verbatim>\<open>False\<close> (as claimed) but has already overwritten \<^verbatim>\<open>last_update\<close>
  with the current time (line 364 is outside the test of line 374). On the Raspberry Pi,
  \<^verbatim>\<open>last_update\<close> is set only on the path that returns \<^verbatim>\<open>True\<close>, but a cycle in which
  all three responses are Modbus errors still returns \<^verbatim>\<open>True\<close>.
\<close>

theorem C1_poll_result_and_last_update_diverge:
  "poll_reads \<lparr>tx = [], rx = []\<rparr> = (None, None, None)
   \<and> fst (poll_plc_data 100 (bridge_init (Some \<lparr>tx = [], rx = []\<rparr>) None :: unit bridge)) = False
   \<and> last_update (plc_data (bridge_init (Some \<lparr>tx = [], rx = []\<rparr>) None :: unit bridge)) = 0
   \<and> last_update (after_poll_plc_data 100 (bridge_init (Some \<lparr>tx = [], rx = []\<rparr>) None :: unit bridge)) = 100
   \<and> fst (poll_data \<lparr>coil_result = MbError ''timeout'', input_result = MbError ''timeout'',
                      register_result = MbError ''timeout''\<rparr>
            \<lparr>rnd_input = (\<lambda>i. False), rnd_coil = (\<lambda>i. False), sine_register = 200,
             rnd_register = (\<lambda>i. 0)\<rparr> 100
            (snd (connect (ConnectReturns True)
               (init \<lparr>SIMULATION_MODE = False, POLL_INTERVAL = 1, CONNECTION_TYPE = ''serial'',
                      SERIAL_PORT = ''/dev/ttyUSB0'', MODBUS_METHOD = ''rtu'', BAUD_RATE = 9600,
                      DEVICE_ADDRESS_cfg = 1\<rparr> True)))) = True"
  by code_simp

text \<open>
  Claim C4. In every poll cycle each group is either left exactly as it was or replaced
  as a whole by the dictionary built from the complete decode, never anything in between.
  On the ESP32 a group is kept when its read gives \<^verbatim>\<open>None\<close> or no values (the test
  \<^verbatim>\<open>if inputs:\<close>) and replaced when it gives values; both dictionaries of a group change
  together. On the Raspberry Pi a group is kept when its response is a Modbus error,
  when its read raises, or when an earlier read of the cycle raised (its read is then
  never made), and replaced by the whole new dictionary otherwise.
\<close>

theorem C4_groups:
  assumes m: "modbus b = Some u" and rd: "poll_reads u = (inputs, coils, registers)"
    and w: "well_formed s"
    and r: "comm_connected s" "\<not> simulation_mode s" "client s \<noteq> None" "MODBUS_AVAILABLE s"
  shows "input_status (after_poll_plc_data now b) =
           (if truthy inputs then input_status_of (the inputs) else input_status (plc_data b))
       \<and> digital_inputs (after_poll_plc_data now b) =
           (if truthy inputs then numbered_of (the inputs) else digital_inputs (plc_data b))
       \<and> coil_status (after_poll_plc_data now b) =
           (if truthy coils then coil_status_of (the coils) else coil_status (plc_data b))
       \<and> digital_outputs (after_poll_plc_data now b) =
           (if truthy coils then numbered_of (the coils) else digital_outputs (plc_data b))
       \<and> data_registers (after_poll_plc_data now b) =
           (if truthy registers then data_registers_of (the registers) else data_registers (plc_data b))
       \<and> snap_coil_status (after_poll_data io draws now' s) =
           (case coil_result io of
              MbValue bits \<Rightarrow> coil_status_dict bits
            | _ \<Rightarrow> snap_coil_status (status_view s))
       \<and> snap_input_status (after_poll_data io draws now' s) =
           (if raised (coil_result io) then snap_input_status (status_view s)
            else case input_result io of
                   MbValue bits \<Rightarrow> input_status_dict bits
                 | _ \<Rightarrow> snap_input_status (status_view s))
       \<and> snap_data_registers (after_poll_data io draws now' s) =
           (if raised (coil_result io) \<or> raised (input_result io) then snap_data_registers (status_view s)
            else case register_result io of
                   MbValue registers \<Rightarrow> data_registers_dict registers
                 | _ \<Rightarrow> snap_data_registers (status_view s))"
  using esp_groups [OF m rd, of now] rpi_groups [OF w r, of io draws now']
  by (intro conjI) blast+

theorem C4_groups_witness:
  "input_status (after_poll_plc_data 100
      (bridge_init (Some \<lparr>tx = [], rx = [RxData [0x01, 0x02, 0x02, 0x55, 0x55, 0x46, 0xD7], RxNone, RxNone]\<rparr>)
         None :: unit bridge))
     = input_status_of [True, False, True, False, True, False, True, False,
                        True, False, True, False, True, False, True, False]
   \<and> coil_status (after_poll_plc_data 100
      (bridge_init (Some \<lparr>tx = [], rx = [RxData [0x01, 0x02, 0x02, 0x55, 0x55, 0x46, 0xD7], RxNone, RxNone]\<rparr>)
         None :: unit bridge)) = []
   \<and> snap_coil_status (after_poll_data
        \<lparr>coil_result = MbValue [True, False], input_result = MbError ''no answer'',
         register_result = MbRaise ''port closed''\<rparr>
        \<lparr>rnd_input = (\<lambda>i. False), rnd_coil = (\<lambda>i. False), sine_register = 200, rnd_register = (\<lambda>i. 0)\<rparr>
        100
        (snd (connect (ConnectReturns True)
           (init \<lparr>SIMULATION_MODE = False, POLL_INTERVAL = 1, CONNECTION_TYPE = ''serial'',
                  SERIAL_PORT = ''/dev/ttyUSB0'', MODBUS_METHOD = ''rtu'', BAUD_RATE = 9600,
                  DEVICE_ADDRESS_cfg = 1\<rparr> True))))
     = coil_status_dict [True, False]
   \<and> snap_input_status (after_poll_data
        \<lparr>coil_result = MbValue [True, False], input_result = MbError ''no answer'',
         register_result = MbRaise ''port closed''\<rparr>
        \<lparr>rnd_input = (\<lambda>i. False), rnd_coil = (\<lambda>i. False), sine_register = 200, rnd_register = (\<lambda>i. 0)\<rparr>
        100
        (snd (connect (ConnectReturns True)
           (init \<lparr>SIMULATION_MODE = False, POLL_INTERVAL = 1, CONNECTION_TYPE = ''serial'',
                  SERIAL_PORT = ''/dev/ttyUSB0'', MODBUS_METHOD = ''rtu'', BAUD_RATE = 9600,
                  DEVICE_ADDRESS_cfg = 1\<rparr> True))))
     = []"
proof -
  let ?u = "\<lparr>tx = [], rx = [RxData [0x01, 0x02, 0x02, 0x55, 0x55, 0x46, 0xD7], RxNone, RxNone]\<rparr>"
  let ?b = "bridge_init (Some ?u) None :: unit bridge"
  let ?s = "snd (connect (ConnectReturns True)
           (init \<lparr>SIMULATION_MODE = False, POLL_INTERVAL = 1, CONNECTION_TYPE = ''serial'',
                  SERIAL_PORT = ''/dev/ttyUSB0'', MODBUS_METHOD = ''rtu'', BAUD_RATE = 9600,
                  DEVICE_ADDRESS_cfg = 1\<rparr> True))"
  let ?io = "\<lparr>coil_result = MbValue [True, False], input_result = MbError ''no answer'',
         register_result = MbRaise ''port closed''\<rparr>"
  have m: "modbus ?b = Some ?u"
    by (simp add: bridge_init_def)
  have rd: "poll_reads ?u = (Some [True, False, True, False, True, False, True, False,
                        True, False, True, False, True, False, True, False], None, None)"
    by code_simp
  have w: "well_formed ?s" by code_simp
  have r: "comm_connected ?s" "\<not> simulation_mode ?s" "client ?s \<noteq> None" "MODBUS_AVAILABLE ?s"
    by code_simp+
  have i: "input_status (plc_data ?b) = []" "coil_status (plc_data ?b) = []"
    by (simp_all add: bridge_init_def)
  have v: "snap_input_status (status_view ?s) = []"
    by code_simp
  from C4_groups [OF m rd w r, where io = ?io and now = 100 and now' = 100] i v
  show ?thesis
    by (simp add: truthy_def raised_def)
qed

text \<open>
  Claim C5 says that every failing group adds one to \<^verbatim>\<open>communication_errors\<close>, so that a
  cycle with \<open>k\<close> failing groups adds \<open>k\<close>. It does not: on the ESP32, when the inputs
  are read and both the coil and the register read time out, two groups have failed and
  the counter stays at 0.
\<close>

theorem C5_counterexample:
  "poll_reads \<lparr>tx = [], rx = [RxData [0x01, 0x02, 0x02, 0x55, 0x55, 0x46, 0xD7], RxNone, RxNone]\<rparr>
     = (Some [True, False, True, False, True, False, True, False,
              True, False, True, False, True, False, True, False], None, None)
   \<and> communication_errors (plc_data
        (bridge_init (Some \<lparr>tx = [], rx = [RxData [0x01, 0x02, 0x02, 0x55, 0x55, 0x46, 0xD7], RxNone, RxNone]\<rparr>)
           None :: unit bridge)) = 0
   \<and> communication_errors (after_poll_plc_data 100
        (bridge_init (Some \<lparr>tx = [], rx = [RxData [0x01, 0x02, 0x02, 0x55, 0x55, 0x46, 0xD7], RxNone, RxNone]\<rparr>)
           None :: unit bridge)) = 0"
  by code_simp

text \<open>
  Claim C5 as amended: the counter counts failed cycles, not failed groups. On the ESP32
  a cycle adds exactly one when none of the three groups gives values, and nothing when
  at least one does. On the Raspberry Pi a cycle in which a read raises adds exactly one,
  however many groups had failed before.
\<close>

theorem C5_errors_per_cycle:
  assumes m: "modbus b = Some u" and rd: "poll_reads u = (inputs, coils, registers)"
    and w: "well_formed s"
    and r: "comm_connected s" "\<not> simulation_mode s" "client s \<noteq> None" "MODBUS_AVAILABLE s"
    and x: "raised (coil_result io) \<or> raised (input_result io) \<or> raised (register_result io)"
  shows "communication_errors (after_poll_plc_data now b) =
           communication_errors (plc_data b) +
             (if truthy inputs \<or> truthy coils \<or> truthy registers then 0 else 1)
       \<and> snap_communication_errors (after_poll_data io draws now' s) =
           snap_communication_errors (status_view s) + 1"
  using esp_errors [OF m rd, of now] rpi_errors [OF w r, of io draws now'] x
  by simp

theorem C5_errors_per_cycle_witness:
  "communication_errors (after_poll_plc_data 100
     (bridge_init (Some \<lparr>tx = [], rx = [RxNone, RxNone, RxNone]\<rparr>) None :: unit bridge)) = 1
   \<and> snap_communication_errors (after_poll_data
        \<lparr>coil_result = MbError ''no answer'', input_result = MbError ''no answer'',
         register_result = MbRaise ''port closed''\<rparr>
        \<lparr>rnd_input = (\<lambda>i. False), rnd_coil = (\<lambda>i. False), sine_register = 200, rnd_register = (\<lambda>i. 0)\<rparr>
        100
        (snd (connect (ConnectReturns True)
           (init \<lparr>SIMULATION_MODE = False, POLL_INTERVAL = 1, CONNECTION_TYPE = ''serial'',
                  SERIAL_PORT = ''/dev/ttyUSB0'', MODBUS_METHOD = ''rtu'', BAUD_RATE = 9600,
                  DEVICE_ADDRESS_cfg = 1\<rparr> True))))
     = 1"
proof -
  let ?u = "\<lparr>tx = [], rx = [RxNone, RxNone, RxNone]\<rparr>"
  let ?b = "bridge_init (Some ?u) None :: unit bridge"
  let ?s = "snd (connect (ConnectReturns True)
           (init \<lparr>SIMULATION_MODE = False, POLL_INTERVAL = 1, CONNECTION_TYPE = ''serial'',
                  SERIAL_PORT = ''/dev/ttyUSB0'', MODBUS_METHOD = ''rtu'', BAUD_RATE = 9600,
                  DEVICE_ADDRESS_cfg = 1\<rparr> True))"
  let ?io = "\<lparr>coil_result = MbError ''no answer'', input_result = MbError ''no answer'',
         register_result = MbRaise ''port closed''\<rparr>"
  have m: "modbus ?b = Some ?u"
    by (simp add: bridge_init_def)
  have rd: "poll_reads ?u = (None, None, None)"
    by code_simp
  have w: "well_formed ?s" by code_simp
  have r: "comm_connected ?s" "\<not> simulation_mode ?s" "client ?s \<noteq> None" "MODBUS_AVAILABLE ?s"
    by code_simp+
  have x: "raised (coil_result ?io) \<or> raised (input_result ?io) \<or> raised (register_result ?io)"
    by (simp add: raised_def)
  have i: "communication_errors (plc_data ?b) = 0"
    by (simp add: bridge_init_def)
  have v: "snap_communication_errors (status_view ?s) = 0"
    by code_simp
  from C5_errors_per_cycle [OF m rd w r x, where now = 100 and now' = 100] i v
  show ?thesis
    by (simp add: truthy_def)
qed

section \<open>Properties of the communicator\<close>

subsection \<open>Simulation mode\<close>

lemma sim_inv_connect: "sim_inv s \<Longrightarrow> sim_inv (snd (connect io s))"
  by (simp add: sim_inv_def connect_def set_connected_def update_live_def)

lemma sim_inv_disconnect: "sim_inv s \<Longrightarrow> sim_inv (disconnect c s)"
  by (simp add: sim_inv_def disconnect_def)

lemma sim_inv_simulate: "sim_inv s \<Longrightarrow> sim_inv (snd (simulate_plc_data draws now s))"
  by (simp add: sim_inv_def simulate_plc_data_def new_dict_def update_live_def Let_def)

lemma sim_inv_poll_data: "sim_inv s \<Longrightarrow> sim_inv (snd (poll_data io draws now s))"
  using sim_inv_simulate [of s draws now]
  by (simp add: poll_data_def) (simp add: sim_inv_def)

lemma sim_inv_get_status: "sim_inv s \<Longrightarrow> sim_inv (snd (get_status now s))"
  by (simp add: sim_inv_def get_status_def add_data_age_def update_live_def Let_def split: option.splits)

lemma sim_inv_do_call: "sim_inv s \<Longrightarrow> sim_inv (do_call s c)"
  by (cases c) (simp_all add: sim_inv_connect sim_inv_disconnect sim_inv_poll_data sim_inv_get_status)

lemma sim_inv_do_calls: "sim_inv s \<Longrightarrow> sim_inv (do_calls s cs)"
  unfolding do_calls_def
  by (induction cs arbitrary: s) (simp_all add: sim_inv_do_call)

lemma sim_inv_writes:
  assumes "sim_inv s"
  shows "write_coil w s address val = (False, ''PLC not connected'')"
    and "write_register w' s address' val' = (False, ''PLC not connected'')"
  using assms by (simp_all add: sim_inv_def write_coil_def write_register_def)

lemma sim_connect:
  assumes "SIMULATION_MODE cfg"
  shows "fst (connect io (init cfg available)) = True"
    and "comm_connected (snd (connect io (init cfg available)))"
    and "snap_connected (status_view (snd (connect io (init cfg available))))"
    and "client (snd (connect io (init cfg available))) = None"
    and "sim_inv (snd (connect io (init cfg available)))"
  using assms
  by (simp_all add: connect_def init_def set_connected_def update_live_def view_def live_def sim_inv_def)

text \<open>
  Claim C10. When simulation mode is configured, \<open>connect\<close> returns true and sets
  \<^verbatim>\<open>connected\<close> (on the communicator and in the status) without creating a client, and after
  any further calls on the communicator \<open>write_coil\<close> and \<open>write_register\<close> answer
  \<^verbatim>\<open>(False, "PLC not connected")\<close> for every address and value, whatever the transport
  would have answered.
\<close>

theorem C10_simulation:
  assumes "SIMULATION_MODE cfg"
  shows "fst (connect io (init cfg available)) = True
       \<and> comm_connected (snd (connect io (init cfg available)))
       \<and> snap_connected (status_view (snd (connect io (init cfg available))))
       \<and> client (snd (connect io (init cfg available))) = None
       \<and> write_coil w (do_calls (snd (connect io (init cfg available))) calls) address val
           = (False, ''PLC not connected'')
       \<and> write_register w' (do_calls (snd (connect io (init cfg available))) calls) address' val'
           = (False, ''PLC not connected'')"
  using sim_connect [OF assms, of io available]
    sim_inv_writes [OF sim_inv_do_calls [OF sim_connect(5) [OF assms, of io available], of calls]]
  by simp

theorem C10_simulation_witness:
  "write_coil (MbValue ())
     (do_calls
        (snd (connect (ConnectReturns True)
           (init \<lparr>SIMULATION_MODE = True, POLL_INTERVAL = 1, CONNECTION_TYPE = ''serial'',
                  SERIAL_PORT = ''/dev/ttyUSB0'', MODBUS_METHOD = ''rtu'', BAUD_RATE = 9600,
                  DEVICE_ADDRESS_cfg = 1\<rparr> True)))
        [PollData \<lparr>coil_result = MbValue [], input_result = MbValue [], register_result = MbValue []\<rparr>
           \<lparr>rnd_input = (\<lambda>i. False), rnd_coil = (\<lambda>i. False), sine_register = 200, rnd_register = (\<lambda>i. 0)\<rparr> 5,
         GetStatus 6])
     5 True = (False, ''PLC not connected'')"
  using C10_simulation [where cfg = "\<lparr>SIMULATION_MODE = True, POLL_INTERVAL = 1, CONNECTION_TYPE = ''serial'',
                  SERIAL_PORT = ''/dev/ttyUSB0'', MODBUS_METHOD = ''rtu'', BAUD_RATE = 9600,
                  DEVICE_ADDRESS_cfg = 1\<rparr>" and io = "ConnectReturns True" and available = True
      and w = "MbValue ()" and address = 5 and val = True]
  by simp

subsection \<open>get_status\<close>

lemma get_status_aged:
  "get_status now s = (length (statuses (add_data_age now s)), (add_data_age now s)\<lparr>statuses := statuses (add_data_age now s) @ [live (add_data_age now s)]\<rparr>)"
  by (simp add: get_status_def Let_def)

lemma aged_fields:
  "dicts (add_data_age now s) = dicts s"
  "plc_status (add_data_age now s) = plc_status s"
  "length (statuses (add_data_age now s)) = length (statuses s)"
  "comm_last_update (add_data_age now s) = comm_last_update s"
  "config (add_data_age now s) = config s"
  by (simp_all add: add_data_age_def update_live_def split: option.splits)

lemma live_unchanged:
  "\<exists>x y. live s = (live s)\<lparr>data_age_seconds := x, data_fresh := y\<rparr>"
proof (intro exI)
  show "live s = (live s)\<lparr>data_age_seconds := data_age_seconds (live s), data_fresh := data_fresh (live s)\<rparr>"
    by simp
qed

lemma live_aged:
  assumes p: "plc_status s < length (statuses s)"
  shows "\<exists>x y. live (add_data_age now s) = (live s)\<lparr>data_age_seconds := x, data_fresh := y\<rparr>"
proof (cases "comm_last_update s")
  case None
  then have "add_data_age now s = s" by (simp add: add_data_age_def)
  then show ?thesis using live_unchanged [of s] by simp
next
  case (Some t)
  show ?thesis
  proof (cases "t = 0")
    case True
    with Some have "add_data_age now s = s" by (simp add: add_data_age_def)
    then show ?thesis using live_unchanged [of s] by simp
  next
    case False
    with Some p have "live (add_data_age now s) =
        (live s)\<lparr>data_age_seconds := Some (py_round1 (now - t)),
                  data_fresh := Some (now - t < POLL_INTERVAL (config s) * 2)\<rparr>"
      by (simp add: add_data_age_def update_live_def live_def)
    then show ?thesis by blast
  qed
qed

lemma statuses_aged_other:
  "a \<noteq> plc_status s \<Longrightarrow> statuses (add_data_age now s) ! a = statuses s ! a"
  by (simp add: add_data_age_def update_live_def split: option.splits)

lemma get_status_facts:
  assumes p: "plc_status s < length (statuses s)"
  shows "fst (get_status now s) = length (statuses s)"
    and "plc_status (snd (get_status now s)) = plc_status s"
    and "length (statuses (snd (get_status now s))) = Suc (length (statuses s))"
    and "dicts (snd (get_status now s)) = dicts s"
    and "statuses (snd (get_status now s)) ! length (statuses s) = live (add_data_age now s)"
    and "live (snd (get_status now s)) = live (add_data_age now s)"
    and "comm_last_update (snd (get_status now s)) = comm_last_update s"
    and "config (snd (get_status now s)) = config s"
  using p
  by (simp_all add: get_status_aged aged_fields live_def nth_append)

lemma get_status_keeps:
  assumes p: "plc_status s < length (statuses s)" and a: "a < length (statuses s)" "a \<noteq> plc_status s"
  shows "statuses (snd (get_status now s)) ! a = statuses s ! a"
  using p a
  by (simp add: get_status_aged aged_fields nth_append statuses_aged_other)


lemma view_get_status:
  assumes p: "plc_status s < length (statuses s)"
  shows "view (snd (get_status now s)) (fst (get_status now s)) =
           (view s (plc_status s))
             \<lparr>snap_data_age_seconds := data_age_seconds (live (add_data_age now s)),
              snap_data_fresh := data_fresh (live (add_data_age now s))\<rparr>"
proof -
  obtain x y where l: "live (add_data_age now s) = (live s)\<lparr>data_age_seconds := x, data_fresh := y\<rparr>"
    using live_aged [OF p] by blast
  have n: "statuses (snd (get_status now s)) ! fst (get_status now s) = live (add_data_age now s)"
    using get_status_facts(1,5) [OF p] by simp
  show ?thesis
    unfolding view_def Let_def get_status_facts(4) [OF p] n l
    by (simp add: live_def)
qed


lemma live_add_data_age:
  assumes p: "plc_status s < length (statuses s)"
  shows "live (add_data_age now s) =
           (case comm_last_update s of
              None \<Rightarrow> live s
            | Some t \<Rightarrow>
                if t = 0 then live s
                else (live s)\<lparr>data_age_seconds := Some (py_round1 (now - t)),
                               data_fresh := Some (now - t < POLL_INTERVAL (config s) * 2)\<rparr>)"
  using p by (simp add: add_data_age_def update_live_def live_def split: option.splits)

lemma view_copy_is_live:
  assumes p: "plc_status s < length (statuses s)"
  shows "view (snd (get_status now s)) (fst (get_status now s)) =
           view (snd (get_status now s)) (plc_status (snd (get_status now s)))"
proof -
  have "statuses (snd (get_status now s)) ! fst (get_status now s) =
          statuses (snd (get_status now s)) ! plc_status (snd (get_status now s))"
    using get_status_facts(1,5,6) [OF p, of now] by (simp add: live_def)
  then show ?thesis by (simp add: view_def)
qed

lemma assign_entry_facts:
  assumes p: "plc_status s < length (statuses s)" and a: "a \<noteq> plc_status s"
  shows "plc_status (assign_entry a f s) < length (statuses (assign_entry a f s))"
    and "live (assign_entry a f s) = live s"
    and "dicts (assign_entry a f s) = dicts s"
    and "comm_last_update (assign_entry a f s) = comm_last_update s"
    and "config (assign_entry a f s) = config s"
    and "plc_status (assign_entry a f s) = plc_status s"
  using p a by (simp_all add: assign_entry_def live_def)

lemma view_live:
  "view s (plc_status s) =
     \<lparr>snap_connected = status_connected (live s),
      snap_last_update = status_last_update (live s),
      snap_communication_errors = status_communication_errors (live s),
      snap_data_registers = dicts s ! data_registers_ref (live s),
      snap_coil_status = dicts s ! coil_status_ref (live s),
      snap_input_status = dicts s ! input_status_ref (live s),
      snap_system_info = dicts s ! system_info_ref (live s),
      snap_data_age_seconds = data_age_seconds (live s),
      snap_data_fresh = data_fresh (live s)\<rparr>"
  by (simp add: view_def live_def Let_def)

lemma polled_communicator_reachable:
  "polled_communicator =
     snd (poll_data
        \<lparr>coil_result = MbValue [True, False], input_result = MbError ''no answer'',
         register_result = MbError ''no answer''\<rparr>
        \<lparr>rnd_input = (\<lambda>i. False), rnd_coil = (\<lambda>i. False), sine_register = 200, rnd_register = (\<lambda>i. 0)\<rparr>
        5
        (snd (connect (ConnectReturns True)
           (init \<lparr>SIMULATION_MODE = False, POLL_INTERVAL = 1, CONNECTION_TYPE = ''serial'',
                  SERIAL_PORT = ''/dev/ttyUSB0'', MODBUS_METHOD = ''rtu'', BAUD_RATE = 9600,
                  DEVICE_ADDRESS_cfg = 1\<rparr> True))))"
  by code_simp

text \<open>
  Claim C6 says that two calls of \<open>get_status\<close> without a poll between them differ in
  \<^verbatim>\<open>data_age_seconds\<close> only, and that changing a returned snapshot cannot change what a
  later call returns. Neither holds. With the last update at time 5 and a poll interval
  of 1, the call at time 6 reports \<^verbatim>\<open>data_fresh = True\<close> and the call at time 8 reports
  \<^verbatim>\<open>data_fresh = False\<close>. And \<^verbatim>\<open>dict.copy()\<close> is shallow: after
  \<^verbatim>\<open>snapshot['coil_status']['Y000'] = False\<close> on the first snapshot, the next call
  returns \<^verbatim>\<open>Y000 = False\<close>, although no poll has run and the PLC reported \<^verbatim>\<open>True\<close>.
\<close>

theorem C6_counterexample:
  "snap_data_fresh (view (snd (get_status 6 polled_communicator)) (fst (get_status 6 polled_communicator)))
     = Some True
   \<and> snap_data_fresh
        (view (snd (get_status 8 (snd (get_status 6 polled_communicator))))
              (fst (get_status 8 (snd (get_status 6 polled_communicator)))))
     = Some False
   \<and> snap_coil_status (view (snd (get_status 6 polled_communicator)) (fst (get_status 6 polled_communicator)))
     = [(''Y000'', PBool True), (''Y001'', PBool False)]
   \<and> snap_coil_status
        (view (snd (get_status 6
                 (assign_coil_status_item (fst (get_status 6 polled_communicator)) ''Y000'' (PBool False)
                    (snd (get_status 6 polled_communicator)))))
              (fst (get_status 6
                 (assign_coil_status_item (fst (get_status 6 polled_communicator)) ''Y000'' (PBool False)
                    (snd (get_status 6 polled_communicator))))))
     = [(''Y000'', PBool False), (''Y001'', PBool False)]"
  by code_simp

text \<open>
  Claim C6 as amended. Two calls of \<open>get_status\<close> without a poll between them return
  snapshots that are equal in every entry except the two that are derived from the clock,
  \<^verbatim>\<open>data_age_seconds\<close> and \<^verbatim>\<open>data_fresh\<close>; the second call leaves the first snapshot as it
  was; each snapshot is a new object, distinct from the live status and from the other
  snapshot; and assigning entries of a returned snapshot (any change \<open>f\<close> of its own
  entries) does not change what a later call returns.
\<close>

theorem C6_get_status_twice:
  assumes p: "plc_status s < length (statuses s)"
  shows "(let (a1, s1) = get_status t1 s; (a2, s2) = get_status t2 s1 in
            view s2 a2 = (view s1 a1)\<lparr>snap_data_age_seconds := snap_data_age_seconds (view s2 a2),
                                      snap_data_fresh := snap_data_fresh (view s2 a2)\<rparr>
          \<and> view s2 a1 = view s1 a1
          \<and> a1 \<noteq> plc_status s1 \<and> a2 \<noteq> plc_status s2 \<and> a1 \<noteq> a2
          \<and> view (snd (get_status t2 (assign_entry a1 f s1))) (fst (get_status t2 (assign_entry a1 f s1)))
              = view s2 a2)"
proof -
  define a1 where "a1 = fst (get_status t1 s)"
  define s1 where "s1 = snd (get_status t1 s)"
  define a2 where "a2 = fst (get_status t2 s1)"
  define s2 where "s2 = snd (get_status t2 s1)"
  define s1' where "s1' = assign_entry a1 f s1"
  note d = a1_def s1_def a2_def s2_def
  have a1: "a1 = length (statuses s)"
    unfolding d using get_status_facts(1) [OF p] by simp
  have p1: "plc_status s1 < length (statuses s1)" and ps1: "plc_status s1 = plc_status s"
    and l1: "length (statuses s1) = Suc (length (statuses s))"
    unfolding d using get_status_facts(2,3) [OF p, of t1] p by simp_all
  have a2: "a2 = length (statuses s1)"
    unfolding d(3) using get_status_facts(1) [OF p1] by simp
  have ps2: "plc_status s2 = plc_status s1"
    unfolding d(4) using get_status_facts(2) [OF p1] by simp
  have ne: "a1 \<noteq> plc_status s1" "a2 \<noteq> plc_status s2" "a1 \<noteq> a2"
    using a1 a2 p p1 ps1 ps2 l1 by simp_all
  have v2: "view s2 a2 = (view s1 (plc_status s1))
             \<lparr>snap_data_age_seconds := data_age_seconds (live (add_data_age t2 s1)),
              snap_data_fresh := data_fresh (live (add_data_age t2 s1))\<rparr>"
    unfolding d(3,4) by (rule view_get_status [OF p1])
  have v1: "view s1 a1 = view s1 (plc_status s1)"
    unfolding d(1,2) by (rule view_copy_is_live [OF p])
  have c1: "view s2 a2 = (view s1 a1)\<lparr>snap_data_age_seconds := snap_data_age_seconds (view s2 a2),
                                      snap_data_fresh := snap_data_fresh (view s2 a2)\<rparr>"
    unfolding v1 by (subst (1) v2) (simp add: v2)
  have k: "statuses s2 ! a1 = statuses s1 ! a1"
    unfolding d(4) using get_status_keeps [OF p1, of a1 t2] a1 l1 ne(1) by simp
  have ds: "dicts s2 = dicts s1"
    unfolding d(4) by (rule get_status_facts(4) [OF p1])
  have c2: "view s2 a1 = view s1 a1"
    by (simp add: view_def k ds)
  have p1': "plc_status s1' < length (statuses s1')"
    unfolding s1'_def by (rule assign_entry_facts(1) [OF p1 ne(1)])
  have e: "live s1' = live s1" "dicts s1' = dicts s1" "comm_last_update s1' = comm_last_update s1"
    "config s1' = config s1" "plc_status s1' = plc_status s1"
    unfolding s1'_def using assign_entry_facts(2-6) [OF p1 ne(1)] by simp_all
  have la: "live (add_data_age t2 s1') = live (add_data_age t2 s1)"
    unfolding live_add_data_age [OF p1] live_add_data_age [OF p1'] e ..
  have vl: "view s1' (plc_status s1') = view s1 (plc_status s1)"
    using view_live [of s1'] view_live [of s1] by (simp only: e)
  have c3: "view (snd (get_status t2 s1')) (fst (get_status t2 s1')) = view s2 a2"
    unfolding view_get_status [OF p1'] v2 la vl ..
  from c1 c2 ne c3 show ?thesis
    unfolding Let_def split_beta s1'_def d by blast
qed

theorem C6_get_status_twice_witness:
  "snap_coil_status
     (view (snd (get_status 8 (snd (get_status 6 polled_communicator))))
           (fst (get_status 8 (snd (get_status 6 polled_communicator)))))
   = snap_coil_status
       (view (snd (get_status 6 polled_communicator)) (fst (get_status 6 polled_communicator)))
   \<and> fst (get_status 6 polled_communicator) \<noteq> plc_status (snd (get_status 6 polled_communicator))"
proof -
  have p: "plc_status polled_communicator < length (statuses polled_communicator)"
    by (simp add: polled_communicator_def)
  note t = C6_get_status_twice [OF p, of 6 8 "\<lambda>st. st\<lparr>status_connected := False\<rparr>",
      unfolded Let_def split_beta]
  from t have "snap_coil_status
       (view (snd (get_status 8 (snd (get_status 6 polled_communicator))))
             (fst (get_status 8 (snd (get_status 6 polled_communicator)))))
     = snap_coil_status
         ((view (snd (get_status 6 polled_communicator)) (fst (get_status 6 polled_communicator)))
            \<lparr>snap_data_age_seconds := snap_data_age_seconds
                (view (snd (get_status 8 (snd (get_status 6 polled_communicator))))
                      (fst (get_status 8 (snd (get_status 6 polled_communicator))))),
             snap_data_fresh := snap_data_fresh
                (view (snd (get_status 8 (snd (get_status 6 polled_communicator))))
                      (fst (get_status 8 (snd (get_status 6 polled_communicator)))))\<rparr>)"
    by (elim conjE) (erule arg_cong)
  moreover from t have "fst (get_status 6 polled_communicator) \<noteq> plc_status (snd (get_status 6 polled_communicator))"
    by (elim conjE)
  ultimately show ?thesis by simp
qed

section \<open>Properties of the script engines\<close>

subsection \<open>execute_script\<close>

lemma finish_fields:
  "scripts (snd (finish sid s e run)) = scripts e"
  by (cases run) (simp add: finish_def)

lemma prepare_fields:
  "scripts (prepare sid s e) = scripts e"
  "world (prepare sid s e) = world e"
  by (simp_all add: prepare_def)

lemma execute_script_scripts:
  "scripts (snd (execute_script sid data e)) = scripts e"
  by (simp add: execute_script_def Let_def finish_fields prepare_fields split: option.splits code.splits)

lemma execute_script_raises:
  assumes "raises_in k msg data e"
  shows "fst (execute_script k data e) =
           error_record msg k (clock (world (snd (execute_script k data e))))"
proof -
  from assms obtain s where s: "map_of (scripts e) k = Some s" "enabled s"
    by (auto simp: raises_in_def split: option.splits)
  show ?thesis
  proof (cases "code s")
    case (ExecRaises m)
    with assms s show ?thesis
      by (simp add: raises_in_def execute_script_def Let_def)
  next
    case NoExecute
    with assms s show ?thesis by (simp add: raises_in_def)
  next
    case (Execute f)
    let ?e1 = "prepare k s e"
    obtain out pins' st' w' where
      run: "f data (pin_states ?e1) (script_state k (script_states ?e1)) (world ?e1) = (out, pins', st', w')"
      by (metis prod_cases4)
    with assms s Execute have "out = Raises msg"
      by (simp add: raises_in_def)
    with s Execute run show ?thesis
      by (simp add: execute_script_def Let_def finish_def)
  qed
qed

subsection \<open>run_batch\<close>

lemma run_batch_scripts:
  "scripts (snd (run_batch data xs results e)) = scripts e"
proof (induction xs arbitrary: results e)
  case Nil
  then show ?case by simp
next
  case (Cons x xs)
  obtain sid s where x: "x = (sid, s)" by (cases x)
  show ?case
    unfolding x using Cons.IH execute_script_scripts [of sid data e]
    by (simp split: prod.splits) (metis snd_conv)
qed

lemma run_batch_append:
  "run_batch data (xs @ ys) results e =
     (case run_batch data xs results e of (results', e') \<Rightarrow> run_batch data ys results' e')"
proof (induction xs arbitrary: results e)
  case Nil
  then show ?case by simp
next
  case (Cons x xs)
  obtain sid s where x: "x = (sid, s)" by (cases x)
  show ?case
    unfolding x using Cons.IH by (simp split: prod.splits)
qed

lemma run_batch_other:
  "k \<notin> fst ` set xs \<Longrightarrow> map_of (fst (run_batch data xs results e)) k = map_of results k"
proof (induction xs arbitrary: results e)
  case Nil
  then show ?case by simp
next
  case (Cons x xs)
  obtain sid s where x: "x = (sid, s)" by (cases x)
  from Cons.prems x have ne: "sid \<noteq> k" and rest: "k \<notin> fst ` set xs" by auto
  show ?case
    unfolding x using Cons.IH [OF rest] ne
    by (simp add: update_conv' split: prod.splits)
qed

subsection \<open>A script that raises and the other scripts\<close>

lemma map_of_settle_in:
  "map_of (settle_in k r xs) sid =
     map_option (\<lambda>s. if sid = k then s\<lparr>code := settle r (code s)\<rparr> else s) (map_of xs sid)"
  by (induction xs) (auto simp: settle_in_def)

lemma settle_script_fields:
  "pin_states (settle_script k r e) = pin_states e"
  "script_states (settle_script k r e) = script_states e"
  "world (settle_script k r e) = world e"
  "scripts (settle_script k r e) = settle_in k r (scripts e)"
  by (simp_all add: settle_script_def)

lemma prepare_settle:
  "prepare sid (s\<lparr>code := c\<rparr>) e = prepare sid s e"
  "prepare sid s (settle_script k r e) = settle_script k r (prepare sid s e)"
  by (simp_all add: prepare_def settle_script_def)

lemma finish_settle:
  "finish sid s (settle_script k r e) run =
     (fst (finish sid s e run), settle_script k r (snd (finish sid s e run)))"
  by (cases run) (simp add: finish_def settle_script_def)

lemma execute_script_settle_other:
  assumes "sid \<noteq> k"
  shows "execute_script sid data (settle_script k r e) =
           (fst (execute_script sid data e), settle_script k r (snd (execute_script sid data e)))"
  using assms
  by (simp add: execute_script_def Let_def map_of_settle_in settle_script_fields prepare_settle
        finish_settle split: option.splits code.splits)

lemma script_state_ensured:
  "map_of (ensure_state k states) k = Some (script_state k (ensure_state k states))"
  by (simp add: ensure_state_def script_state_def update_conv' split: option.splits)

lemma update_script_state_same:
  "AList.update k (script_state k (ensure_state k states)) (ensure_state k states) = ensure_state k states"
  by (rule update_triv) (rule script_state_ensured)

lemma finish_same_effects:
  "snd (finish sid s e (out, effects)) = snd (finish sid s' e (out', effects))"
  by (cases effects) (simp add: finish_def)

lemma finish_snd_code:
  "snd (finish sid (s\<lparr>code := c\<rparr>) e run) = snd (finish sid s e run)"
  by (cases run) (simp add: finish_def)

lemma execute_script_settle_self:
  "snd (execute_script k data (settle_script k r e)) =
     settle_script k r (snd (execute_script k data e))"
proof (cases "map_of (scripts e) k")
  case None
  then show ?thesis
    by (simp add: execute_script_def map_of_settle_in settle_script_fields)
next
  case (Some s)
  show ?thesis
  proof (cases "enabled s")
    case False
    with Some show ?thesis
      by (simp add: execute_script_def map_of_settle_in settle_script_fields)
  next
    case True
    let ?e1 = "prepare k s e"
    show ?thesis
    proof (cases "code s")
      case (ExecRaises m)
      have same: "(settle_script k r ?e1)
                    \<lparr>script_states := AList.update k (script_state k (script_states ?e1)) (script_states ?e1)\<rparr>
                  = settle_script k r ?e1"
        by (simp add: settle_script_def prepare_def update_script_state_same)
      from Some True ExecRaises show ?thesis
        by (simp add: execute_script_def Let_def map_of_settle_in settle_script_fields prepare_settle
              settle_def finish_def same)
    next
      case NoExecute
      with Some True show ?thesis
        by (simp add: execute_script_def Let_def map_of_settle_in settle_script_fields prepare_settle
              settle_def)
    next
      case (Execute f)
      obtain out effects where
        run: "f data (pin_states ?e1) (script_state k (script_states ?e1)) (world ?e1) = (out, effects)"
        by (cases "f data (pin_states ?e1) (script_state k (script_states ?e1)) (world ?e1)")
      show ?thesis
      proof (cases out)
        case (Returns v)
        with Some True Execute run show ?thesis
          by (simp add: execute_script_def Let_def map_of_settle_in settle_script_fields prepare_settle
              settle_def finish_settle finish_snd_code)
      next
        case (Raises m)
        with Some True Execute run show ?thesis
          using finish_same_effects [of k s ?e1 "Returns r" effects s "Raises m"]
          by (simp add: execute_script_def Let_def map_of_settle_in settle_script_fields prepare_settle
              settle_def finish_settle finish_snd_code)
      qed
    qed
  qed
qed

lemma run_batch_settle:
  assumes "\<forall>sid. sid \<noteq> k \<longrightarrow> map_of results' sid = map_of results sid"
  shows "snd (run_batch data (settle_in k r xs) results' (settle_script k r e)) =
           settle_script k r (snd (run_batch data xs results e))
       \<and> (\<forall>sid. sid \<noteq> k \<longrightarrow>
            map_of (fst (run_batch data (settle_in k r xs) results' (settle_script k r e))) sid =
            map_of (fst (run_batch data xs results e)) sid)"
  using assms
proof (induction xs arbitrary: results results' e)
  case Nil
  then show ?case by (simp add: settle_in_def)
next
  case (Cons x xs)
  obtain sid s where x: "x = (sid, s)" by (cases x)
  have unf: "settle_in k r ((sid, s) # xs) =
               (sid, if sid = k then s\<lparr>code := settle r (code s)\<rparr> else s) # settle_in k r xs"
    by (simp add: settle_in_def)
  show ?case
  proof (cases "enabled s")
    case False
    with Cons.IH [OF Cons.prems, of e] show ?thesis
      unfolding x unf by simp
  next
    case True
    obtain res e' where ex: "execute_script sid data e = (res, e')"
      by (cases "execute_script sid data e")
    obtain res' e'' where ex': "execute_script sid data (settle_script k r e) = (res', e'')"
      by (cases "execute_script sid data (settle_script k r e)")
    have st: "e'' = settle_script k r e'"
    proof (cases "sid = k")
      case True
      with execute_script_settle_self [of k data r e] ex ex' show ?thesis by simp
    next
      case False
      with execute_script_settle_other [OF False, of data r e] ex ex' show ?thesis by simp
    qed
    have rs: "\<forall>j. j \<noteq> k \<longrightarrow>
                map_of (AList.update sid (ScriptResult res') results') j =
                map_of (AList.update sid (ScriptResult res) results) j"
    proof (cases "sid = k")
      case True
      with Cons.prems show ?thesis by (simp add: update_conv')
    next
      case False
      with execute_script_settle_other [OF False, of data r e] ex ex' have "res' = res" by simp
      with Cons.prems show ?thesis by (simp add: update_conv')
    qed
    from Cons.IH [OF rs, of e'] True ex ex' show ?thesis
      unfolding x unf st by simp
  qed
qed

lemma execute_all_settle:
  assumes "sid \<noteq> k"
  shows "map_of (fst (execute_all_enabled_scripts data (settle_script k r e))) sid =
         map_of (fst (execute_all_enabled_scripts data e)) sid"
proof -
  obtain rs e' where b: "run_batch data (scripts e) [] e = (rs, e')"
    by (cases "run_batch data (scripts e) [] e")
  obtain rs' e'' where b': "run_batch data (settle_in k r (scripts e)) [] (settle_script k r e) = (rs', e'')"
    by (cases "run_batch data (settle_in k r (scripts e)) [] (settle_script k r e)")
  from run_batch_settle [of k "[]" "[]" data r "scripts e" e] b b'
  have 1: "e'' = settle_script k r e'" and 2: "\<forall>j. j \<noteq> k \<longrightarrow> map_of rs' j = map_of rs j"
    by simp_all
  show ?thesis
    using assms 2
    by (simp add: execute_all_enabled_scripts_def settle_script_fields b b' 1 update_conv')
qed

subsection \<open>Every enabled script gets its result\<close>

lemma run_batch_keeps_entry:
  "\<exists>r. map_of results sid = Some (ScriptResult r) \<Longrightarrow>
     \<exists>r. map_of (fst (run_batch data xs results e)) sid = Some (ScriptResult r)"
proof (induction xs arbitrary: results e)
  case Nil
  then show ?case by simp
next
  case (Cons x xs)
  obtain j s where x: "x = (j, s)" by (cases x)
  show ?case
  proof (cases "enabled s")
    case False
    with Cons.IH [OF Cons.prems, of e] show ?thesis unfolding x by simp
  next
    case True
    obtain res e' where ex: "execute_script j data e = (res, e')"
      by (cases "execute_script j data e")
    from Cons.prems have "\<exists>r. map_of (AList.update j (ScriptResult res) results) sid = Some (ScriptResult r)"
      by (simp add: update_conv')
    from Cons.IH [OF this, of e'] True ex show ?thesis unfolding x by simp
  qed
qed

lemma run_batch_entry:
  "(sid, s) \<in> set xs \<Longrightarrow> enabled s \<Longrightarrow>
     \<exists>r. map_of (fst (run_batch data xs results e)) sid = Some (ScriptResult r)"
proof (induction xs arbitrary: results e)
  case Nil
  then show ?case by simp
next
  case (Cons x xs)
  obtain j t where x: "x = (j, t)" by (cases x)
  show ?case
  proof (cases "x = (sid, s)")
    case True
    obtain res e' where ex: "execute_script sid data e = (res, e')"
      by (cases "execute_script sid data e")
    have "\<exists>r. map_of (AList.update sid (ScriptResult res) results) sid = Some (ScriptResult r)"
      by (simp add: update_conv')
    from run_batch_keeps_entry [OF this, of data xs e'] True Cons.prems(2) ex
    show ?thesis by simp
  next
    case False
    with Cons.prems have m: "(sid, s) \<in> set xs" by simp
    show ?thesis
    proof (cases "enabled t")
      case False
      with Cons.IH [OF m Cons.prems(2), of results e] show ?thesis unfolding x by simp
    next
      case True
      obtain res e' where ex: "execute_script j data e = (res, e')"
        by (cases "execute_script j data e")
      from Cons.IH [OF m Cons.prems(2), of "AList.update j (ScriptResult res) results" e'] True ex
      show ?thesis unfolding x by simp
    qed
  qed
qed

lemma execute_all_entry:
  assumes "(sid, s) \<in> set (scripts e)" "enabled s" "sid \<noteq> ''gpio_states''"
  shows "\<exists>r. map_of (fst (execute_all_enabled_scripts data e)) sid = Some (ScriptResult r)"
proof -
  obtain rs e' where b: "run_batch data (scripts e) [] e = (rs, e')"
    by (cases "run_batch data (scripts e) [] e")
  from run_batch_entry [OF assms(1,2), of data "[]" e] b assms(3)
  show ?thesis
    by (simp add: execute_all_enabled_scripts_def update_conv')
qed

subsection \<open>The result of a script in the batch\<close>

lemma split_at_key:
  assumes d: "distinct (map fst xs)" and m: "map_of xs k = Some s"
  shows "\<exists>post. xs = takeWhile (\<lambda>(sid, s). sid \<noteq> k) xs @ (k, s) # post \<and> k \<notin> fst ` set post"
  using assms
proof (induction xs)
  case Nil
  then show ?case by simp
next
  case (Cons x xs)
  obtain j t where x: "x = (j, t)" by (cases x)
  show ?case
  proof (cases "j = k")
    case True
    with Cons.prems x have "t = s" and "k \<notin> fst ` set xs" by auto
    with True x show ?thesis by simp
  next
    case False
    with Cons.prems x have "distinct (map fst xs)" "map_of xs k = Some s" by simp_all
    from Cons.IH [OF this] False x show ?thesis by simp
  qed
qed

lemma execute_all_turn:
  assumes d: "distinct (map fst (scripts e))" and m: "map_of (scripts e) k = Some s"
    and en: "enabled s" and g: "k \<noteq> ''gpio_states''"
  shows "map_of (fst (execute_all_enabled_scripts data e)) k =
           Some (ScriptResult (fst (execute_script k data (turn_state k data e))))"
proof -
  let ?pre = "takeWhile (\<lambda>(sid, s). sid \<noteq> k) (scripts e)"
  obtain post where sp: "scripts e = ?pre @ (k, s) # post" and np: "k \<notin> fst ` set post"
    using split_at_key [OF d m] by blast
  obtain r1 e1 where b1: "run_batch data ?pre [] e = (r1, e1)"
    by (cases "run_batch data ?pre [] e")
  then have t: "turn_state k data e = e1"
    by (simp add: turn_state_def)
  obtain res e2 where ex: "execute_script k data e1 = (res, e2)"
    by (cases "execute_script k data e1")
  have "run_batch data (scripts e) [] e = run_batch data post (AList.update k (ScriptResult res) r1) e2"
    by (subst sp) (simp add: run_batch_append b1 en ex)
  then have "map_of (fst (run_batch data (scripts e) [] e)) k = Some (ScriptResult res)"
    using run_batch_other [OF np, of data "AList.update k (ScriptResult res) r1" e2]
    by (simp add: update_conv')
  with g show ?thesis
    by (cases "run_batch data (scripts e) [] e")
       (simp add: execute_all_enabled_scripts_def t ex update_conv')
qed

text \<open>
  Claim C7. In a batch over the enabled scripts, when the run of a script raises, the
  result record of that script is the error text together with its script id and a
  timestamp; that record is the script's entry of the batch result (the registry being a
  dictionary, and the id not being the key \<^verbatim>\<open>gpio_states\<close>, under which the batch stores
  the pin states last); the batch still delivers a result for every enabled script, so
  nothing propagated out of the engine; and the result of every other script is what it
  is when the failing script, with the same effects on the pins, its state and the
  world, returns a value \<open>other\<close> instead of raising.
\<close>

theorem C7_script_error_contained:
  assumes r: "raises_in k msg data (turn_state k data e)"
  shows "fst (execute_script k data (turn_state k data e)) =
           RDict [(''error'', PStr (''Script execution failed: '' @ msg)),
                  (''script_id'', PStr k),
                  (''timestamp'', PNum (clock (world (snd (execute_script k data (turn_state k data e))))))]
       \<and> (distinct (map fst (scripts e)) \<and> k \<noteq> ''gpio_states'' \<longrightarrow>
            map_of (fst (execute_all_enabled_scripts data e)) k =
              Some (ScriptResult (fst (execute_script k data (turn_state k data e)))))
       \<and> (\<forall>sid s. (sid, s) \<in> set (scripts e) \<and> enabled s \<and> sid \<noteq> ''gpio_states'' \<longrightarrow>
            (\<exists>res. map_of (fst (execute_all_enabled_scripts data e)) sid = Some (ScriptResult res)))
       \<and> (\<forall>sid. sid \<noteq> k \<longrightarrow>
            map_of (fst (execute_all_enabled_scripts data (settle_script k other e))) sid =
            map_of (fst (execute_all_enabled_scripts data e)) sid)"
proof (intro conjI allI impI)
  show "fst (execute_script k data (turn_state k data e)) =
           RDict [(''error'', PStr (''Script execution failed: '' @ msg)),
                  (''script_id'', PStr k),
                  (''timestamp'', PNum (clock (world (snd (execute_script k data (turn_state k data e))))))]"
    using execute_script_raises [OF r] by (simp add: error_record_def)
next
  assume a: "distinct (map fst (scripts e)) \<and> k \<noteq> ''gpio_states''"
  have sc: "scripts (turn_state k data e) = scripts e"
    by (simp add: turn_state_def run_batch_scripts)
  from r obtain s where s: "map_of (scripts e) k = Some s" "enabled s"
    by (auto simp: raises_in_def sc split: option.splits)
  from a execute_all_turn [OF _ s, of data]
  show "map_of (fst (execute_all_enabled_scripts data e)) k =
          Some (ScriptResult (fst (execute_script k data (turn_state k data e))))"
    by simp
next
  fix sid s
  assume "(sid, s) \<in> set (scripts e) \<and> enabled s \<and> sid \<noteq> ''gpio_states''"
  then show "\<exists>res. map_of (fst (execute_all_enabled_scripts data e)) sid = Some (ScriptResult res)"
    using execute_all_entry [of sid s e data] by simp
next
  fix sid
  assume "sid \<noteq> k"
  then show "map_of (fst (execute_all_enabled_scripts data (settle_script k other e))) sid =
             map_of (fst (execute_all_enabled_scripts data e)) sid"
    by (rule execute_all_settle)
qed

theorem C7_script_error_contained_witness:
  "map_of (fst (execute_all_enabled_scripts () demo_engine)) ''broken'' =
     Some (ScriptResult (RDict [(''error'', PStr ''Script execution failed: division by zero''),
                                (''script_id'', PStr ''broken''),
                                (''timestamp'', PNum 101)]))
   \<and> map_of (fst (execute_all_enabled_scripts () (settle_script ''broken'' (RDict []) demo_engine))) ''counter'' =
     map_of (fst (execute_all_enabled_scripts () demo_engine)) ''counter''
   \<and> (\<exists>res. map_of (fst (execute_all_enabled_scripts () demo_engine)) ''counter'' = Some (ScriptResult res))"
proof -
  have r: "raises_in ''broken'' ''division by zero'' () (turn_state ''broken'' () demo_engine)"
    by code_simp
  have d: "distinct (map fst (scripts demo_engine))" "''broken'' \<noteq> ''gpio_states''"
    by (simp_all add: demo_engine_def)
  have c: "clock (world (snd (execute_script ''broken'' () (turn_state ''broken'' () demo_engine)))) = 101"
    by code_simp
  have m: "(''counter'', counter_script) \<in> set (scripts demo_engine)" "enabled counter_script"
    "''counter'' \<noteq> ''gpio_states''" "''counter'' \<noteq> ''broken''"
    by (simp_all add: demo_engine_def counter_script_def)
  note t = C7_script_error_contained [OF r, where other = "RDict []"]
  note t1 = t [THEN conjunct1]
  note t2 = t [THEN conjunct2, THEN conjunct1, rule_format]
  note t3 = t [THEN conjunct2, THEN conjunct2, THEN conjunct1, rule_format]
  note t4 = t [THEN conjunct2, THEN conjunct2, THEN conjunct2, rule_format]
  have 1: "map_of (fst (execute_all_enabled_scripts () demo_engine)) ''broken'' =
     Some (ScriptResult (RDict [(''error'', PStr ''Script execution failed: division by zero''),
                                (''script_id'', PStr ''broken''),
                                (''timestamp'', PNum 101)]))"
    using t2 [OF conjI [OF d]] unfolding t1 c by simp
  have 2: "map_of (fst (execute_all_enabled_scripts () (settle_script ''broken'' (RDict []) demo_engine))) ''counter'' =
     map_of (fst (execute_all_enabled_scripts () demo_engine)) ''counter''"
    by (rule t4 [OF m(4)])
  have 3: "\<exists>res. map_of (fst (execute_all_enabled_scripts () demo_engine)) ''counter'' = Some (ScriptResult res)"
    by (rule t3 [OF conjI [OF m(1) conjI [OF m(2,3)]]])
  from 1 2 3 show ?thesis by (intro conjI)
qed

subsection \<open>Disabling and enabling\<close>

lemma api_script_toggle_facts:
  assumes "map_of (scripts e) k = Some s"
  shows "fst (api_script_toggle k e) = True"
    and "map_of (scripts (snd (api_script_toggle k e))) k = Some (s\<lparr>enabled := \<not> enabled s\<rparr>)"
    and "script_states (snd (api_script_toggle k e)) = script_states e"
    and "pin_states (snd (api_script_toggle k e)) = pin_states e"
    and "world (snd (api_script_toggle k e)) = world e"
    and "map fst (scripts (snd (api_script_toggle k e))) = map fst (scripts e)"
proof -
  from assms have "k \<in> fst ` set (scripts e)"
    by (metis domI dom_map_of_conv_image_fst)
  with assms show "fst (api_script_toggle k e) = True"
    and "map_of (scripts (snd (api_script_toggle k e))) k = Some (s\<lparr>enabled := \<not> enabled s\<rparr>)"
    and "script_states (snd (api_script_toggle k e)) = script_states e"
    and "pin_states (snd (api_script_toggle k e)) = pin_states e"
    and "world (snd (api_script_toggle k e)) = world e"
    and "map fst (scripts (snd (api_script_toggle k e))) = map fst (scripts e)"
    by (simp_all add: api_script_toggle_def update_conv' update_keys)
qed

lemma execute_script_other_state:
  assumes "sid \<noteq> k"
  shows "map_of (script_states (snd (execute_script sid data e))) k = map_of (script_states e) k"
proof -
  have f: "map_of (script_states (snd (finish sid s e1 run))) k = map_of (script_states e1) k"
    for s and e1 :: "('a, 'b) engine" and run
    using assms by (cases run) (simp add: finish_def update_conv')
  have p: "map_of (script_states (prepare sid s e)) k = map_of (script_states e) k" for s
    using assms by (simp add: prepare_def ensure_state_def update_conv')
  show ?thesis
    by (simp add: execute_script_def Let_def f p split: option.splits code.splits)
qed

lemma run_batch_off:
  assumes "\<forall>s. (k, s) \<in> set xs \<longrightarrow> \<not> enabled s"
  shows "map_of (script_states (snd (run_batch data xs results e))) k = map_of (script_states e) k
       \<and> map_of (fst (run_batch data xs results e)) k = map_of results k"
  using assms
proof (induction xs arbitrary: results e)
  case Nil
  then show ?case by simp
next
  case (Cons x xs)
  obtain j t where x: "x = (j, t)" by (cases x)
  from Cons.prems have rest: "\<forall>s. (k, s) \<in> set xs \<longrightarrow> \<not> enabled s" by simp
  show ?case
  proof (cases "enabled t")
    case False
    with Cons.IH [OF rest, of results e] show ?thesis unfolding x by simp
  next
    case True
    with Cons.prems x have ne: "j \<noteq> k" by auto
    obtain res e' where ex: "execute_script j data e = (res, e')"
      by (cases "execute_script j data e")
    from execute_script_other_state [OF ne, of data e] ex
    have st: "map_of (script_states e') k = map_of (script_states e) k" by simp
    from Cons.IH [OF rest, of "AList.update j (ScriptResult res) results" e'] True ex ne st
    show ?thesis unfolding x by (simp add: update_conv')
  qed
qed

lemma execute_all_off:
  assumes "off k e"
  shows "map_of (script_states (snd (execute_all_enabled_scripts data e))) k = map_of (script_states e) k"
    and "scripts (snd (execute_all_enabled_scripts data e)) = scripts e"
    and "map_of (fst (execute_all_enabled_scripts data e)) k \<noteq> Some (ScriptResult r)"
proof -
  obtain rs e' where b: "run_batch data (scripts e) [] e = (rs, e')"
    by (cases "run_batch data (scripts e) [] e")
  from assms have a: "\<forall>s. (k, s) \<in> set (scripts e) \<longrightarrow> \<not> enabled s"
    by (simp add: off_def)
  from run_batch_off [OF a, of data "[]" e] b
  have 1: "map_of (script_states e') k = map_of (script_states e) k" and 2: "map_of rs k = None"
    by simp_all
  from run_batch_scripts [of data "scripts e" "[]" e] b have 3: "scripts e' = scripts e" by simp
  show "map_of (script_states (snd (execute_all_enabled_scripts data e))) k = map_of (script_states e) k"
    by (simp add: execute_all_enabled_scripts_def b 1)
  show "scripts (snd (execute_all_enabled_scripts data e)) = scripts e"
    by (simp add: execute_all_enabled_scripts_def b 3)
  show "map_of (fst (execute_all_enabled_scripts data e)) k \<noteq> Some (ScriptResult r)"
    by (simp add: execute_all_enabled_scripts_def b 2 update_conv')
qed

lemma run_cycles_off:
  assumes "off k e"
  shows "map_of (script_states (run_cycles snapshots e)) k = map_of (script_states e) k
       \<and> scripts (run_cycles snapshots e) = scripts e"
  using assms
proof (induction snapshots arbitrary: e)
  case Nil
  then show ?case by (simp add: run_cycles_def)
next
  case (Cons d ds)
  let ?e = "snd (execute_all_enabled_scripts d e)"
  from execute_all_off(1,2) [OF Cons.prems, of d]
  have 1: "map_of (script_states ?e) k = map_of (script_states e) k" and 2: "scripts ?e = scripts e"
    by simp_all
  from Cons.prems 2 have "off k ?e" by (simp add: off_def)
  from Cons.IH [OF this] 1 2 show ?case
    by (simp add: run_cycles_def)
qed

lemma off_after_toggle:
  assumes d: "distinct (map fst (scripts e))" and m: "map_of (scripts e) k = Some s" and en: "enabled s"
  shows "off k (snd (api_script_toggle k e))"
proof -
  let ?e = "snd (api_script_toggle k e)"
  have dk: "distinct (map fst (scripts ?e))"
    using api_script_toggle_facts(6) [OF m] d by simp
  have mk: "map_of (scripts ?e) k = Some (s\<lparr>enabled := \<not> enabled s\<rparr>)"
    by (rule api_script_toggle_facts(2) [OF m])
  show ?thesis
    unfolding off_def
  proof (intro allI impI)
    fix t assume "(k, t) \<in> set (scripts ?e)"
    with dk have "map_of (scripts ?e) k = Some t" by simp
    with mk en show "\<not> enabled t" by simp
  qed
qed

lemma esp_run_not_listed:
  "k \<notin> set order \<Longrightarrow> map_of (fst (esp_run data order results e)) k = map_of results k"
proof (induction order arbitrary: results e)
  case Nil
  then show ?case by simp
next
  case (Cons j order)
  then have ne: "j \<noteq> k" and rest: "k \<notin> set order" by auto
  show ?case
    using Cons.IH [OF rest] ne by (simp add: update_conv' split: prod.splits)
qed

lemma disable_script_facts:
  assumes "map_of (esp_scripts b) k = Some s"
  shows "fst (disable_script k b) = True"
    and "k \<notin> enabled_scripts (snd (disable_script k b))"
    and "esp_gpio (snd (disable_script k b)) = esp_gpio b"
    and "map_of (esp_scripts (snd (disable_script k b))) k = Some (s\<lparr>esp_enabled := False\<rparr>)"
  using assms by (simp_all add: disable_script_def update_conv')

lemma enable_script_facts:
  assumes "map_of (esp_scripts b) k = Some s"
  shows "fst (enable_script k b) = True"
    and "k \<in> enabled_scripts (snd (enable_script k b))"
    and "esp_gpio (snd (enable_script k b)) = esp_gpio b"
    and "map_of (esp_scripts (snd (enable_script k b))) k = Some (s\<lparr>esp_enabled := True\<rparr>)"
  using assms by (simp_all add: enable_script_def update_conv')

lemma execute_script_runs:
  assumes m: "map_of (scripts e) k = Some s" and en: "enabled s" and c: "code s = Execute f"
  shows "execute_script k data e =
           finish k s (prepare k s e)
             (f data (pin_states (prepare k s e)) (script_state k (script_states (prepare k s e)))
                (world (prepare k s e)))"
  using assms by (simp add: execute_script_def Let_def)

lemma script_state_prepared:
  "map_of (script_states e) k = Some st \<Longrightarrow> script_state k (script_states (prepare k s e)) = st"
  by (simp add: prepare_def ensure_state_def script_state_def)

lemma execute_all_scripts:
  "scripts (snd (execute_all_enabled_scripts data e)) = scripts e"
  using run_batch_scripts [of data "scripts e" "[]" e]
  by (cases "run_batch data (scripts e) [] e") (simp add: execute_all_enabled_scripts_def)

lemma run_cycles_scripts:
  "scripts (run_cycles snapshots e) = scripts e"
  unfolding run_cycles_def
  by (induction snapshots arbitrary: e) (simp_all add: execute_all_scripts)

text \<open>
  Claim C9. A script with persisted runtime state is disabled, any number of poll cycles
  run, and it is enabled again. Disabling leaves all runtime states as they are; while
  the script is disabled no cycle executes it, and its runtime state stays what it was;
  after enabling, the registry holds the script as before and the next execution runs
  its code on exactly that state. On the ESP32 engine, which keeps no runtime state per
  script, \<open>disable_script\<close> takes the script out of the set that is executed and changes
  nothing else a script can reach, and \<open>enable_script\<close> puts it back.
\<close>

theorem C9_disable_keeps_state:
  assumes d: "distinct (map fst (scripts e))"
    and m: "map_of (scripts e) k = Some s" and en: "enabled s"
    and st: "map_of (script_states e) k = Some state"
    and b: "map_of (esp_scripts b) j = Some t"
    and o: "set order = enabled_scripts (snd (disable_script j b))"
  shows "(let e1 = snd (api_script_toggle k e);
              e2 = run_cycles snapshots e1;
              e3 = snd (api_script_toggle k e2)
          in script_states e1 = script_states e
           \<and> (\<forall>r. map_of (fst (execute_all_enabled_scripts data e2)) k \<noteq> Some (ScriptResult r))
           \<and> map_of (script_states e2) k = Some state
           \<and> map_of (scripts e3) k = Some s
           \<and> script_state k (script_states (prepare k s e3)) = state
           \<and> (\<forall>f. code s = Execute f \<longrightarrow>
                execute_script k data e3 =
                  finish k s (prepare k s e3)
                    (f data (pin_states (prepare k s e3)) state (world (prepare k s e3)))))
       \<and> j \<notin> enabled_scripts (snd (disable_script j b))
       \<and> map_of (fst (execute_enabled_scripts order data' (snd (disable_script j b)))) j = None
       \<and> esp_gpio (snd (disable_script j b)) = esp_gpio b
       \<and> j \<in> enabled_scripts (snd (enable_script j (snd (disable_script j b))))
       \<and> map_of (esp_scripts (snd (enable_script j (snd (disable_script j b))))) j
           = Some (t\<lparr>esp_enabled := True\<rparr>)"
proof -
  define e1 where "e1 = snd (api_script_toggle k e)"
  define e2 where "e2 = run_cycles snapshots e1"
  define e3 where "e3 = snd (api_script_toggle k e2)"
  have off1: "off k e1"
    unfolding e1_def by (rule off_after_toggle [OF d m en])
  have m1: "map_of (scripts e1) k = Some (s\<lparr>enabled := False\<rparr>)"
    unfolding e1_def using api_script_toggle_facts(2) [OF m] en by simp
  have s1: "script_states e1 = script_states e"
    unfolding e1_def by (rule api_script_toggle_facts(3) [OF m])
  have c2: "map_of (script_states e2) k = map_of (script_states e1) k" and r2: "scripts e2 = scripts e1"
    unfolding e2_def using run_cycles_off [OF off1, of snapshots] by simp_all
  have off2: "off k e2"
    using off1 r2 by (simp add: off_def)
  have st2: "map_of (script_states e2) k = Some state"
    using c2 s1 st by simp
  have m2: "map_of (scripts e2) k = Some (s\<lparr>enabled := False\<rparr>)"
    using m1 r2 by simp
  have nr: "\<forall>r. map_of (fst (execute_all_enabled_scripts data e2)) k \<noteq> Some (ScriptResult r)"
    using execute_all_off(3) [OF off2] by blast
  have twice: "s\<lparr>enabled := False\<rparr>\<lparr>enabled := \<not> enabled (s\<lparr>enabled := False\<rparr>)\<rparr> = s"
    using en by simp
  have m3: "map_of (scripts e3) k = Some s"
    unfolding e3_def using api_script_toggle_facts(2) [OF m2] twice by simp
  have st3: "map_of (script_states e3) k = Some state"
    unfolding e3_def using api_script_toggle_facts(3) [OF m2] st2 by simp
  have p3: "script_state k (script_states (prepare k s e3)) = state"
    by (rule script_state_prepared [OF st3])
  have x3: "\<forall>f. code s = Execute f \<longrightarrow>
                execute_script k data e3 =
                  finish k s (prepare k s e3)
                    (f data (pin_states (prepare k s e3)) state (world (prepare k s e3)))"
    using execute_script_runs [OF m3 en, of _ data] p3 by simp
  have rpi: "(let e1 = snd (api_script_toggle k e);
              e2 = run_cycles snapshots e1;
              e3 = snd (api_script_toggle k e2)
          in script_states e1 = script_states e
           \<and> (\<forall>r. map_of (fst (execute_all_enabled_scripts data e2)) k \<noteq> Some (ScriptResult r))
           \<and> map_of (script_states e2) k = Some state
           \<and> map_of (scripts e3) k = Some s
           \<and> script_state k (script_states (prepare k s e3)) = state
           \<and> (\<forall>f. code s = Execute f \<longrightarrow>
                execute_script k data e3 =
                  finish k s (prepare k s e3)
                    (f data (pin_states (prepare k s e3)) state (world (prepare k s e3)))))"
    unfolding Let_def using s1 nr st2 m3 p3 x3
    unfolding e1_def e2_def e3_def by (intro conjI)
  let ?b1 = "snd (disable_script j b)"
  have n1: "j \<notin> enabled_scripts ?b1"
    by (rule disable_script_facts(2) [OF b])
  have n2: "map_of (fst (execute_enabled_scripts order data' ?b1)) j = None"
    unfolding execute_enabled_scripts_def
    using esp_run_not_listed [of j order data' "[]" ?b1] n1 o by simp
  have n3: "esp_gpio ?b1 = esp_gpio b"
    by (rule disable_script_facts(3) [OF b])
  have mb: "map_of (esp_scripts ?b1) j = Some (t\<lparr>esp_enabled := False\<rparr>)"
    by (rule disable_script_facts(4) [OF b])
  have n4: "j \<in> enabled_scripts (snd (enable_script j ?b1))"
    by (rule enable_script_facts(2) [OF mb])
  have n5: "map_of (esp_scripts (snd (enable_script j ?b1))) j = Some (t\<lparr>esp_enabled := True\<rparr>)"
    using enable_script_facts(4) [OF mb] by simp
  from rpi n1 n2 n3 n4 n5 show ?thesis by (intro conjI)
qed

theorem C9_disable_keeps_state_witness:
  "map_of (script_states (run_cycles [(), (), ()] demo_engine)) ''counter'' = Some [(''n'', PInt 3)]
   \<and> map_of (script_states
        (run_cycles [(), ()] (snd (api_script_toggle ''counter'' (run_cycles [(), (), ()] demo_engine)))))
        ''counter'' = Some [(''n'', PInt 3)]
   \<and> script_state ''counter''
        (script_states (prepare ''counter'' counter_script
          (snd (api_script_toggle ''counter''
            (run_cycles [(), ()]
              (snd (api_script_toggle ''counter'' (run_cycles [(), (), ()] demo_engine))))))))
      = [(''n'', PInt 3)]
   \<and> ''status_led'' \<notin> enabled_scripts (snd (disable_script ''status_led'' demo_esp_engine))"
proof -
  let ?e = "run_cycles [(), (), ()] demo_engine"
  have d: "distinct (map fst (scripts ?e))"
    by (simp add: run_cycles_scripts demo_engine_def)
  have m: "map_of (scripts ?e) ''counter'' = Some counter_script"
    by (simp add: run_cycles_scripts demo_engine_def)
  have en: "enabled counter_script"
    by (simp add: counter_script_def)
  have st: "map_of (script_states ?e) ''counter'' = Some [(''n'', PInt 3)]"
    by code_simp
  have b: "map_of (esp_scripts demo_esp_engine) ''status_led'' =
      Some \<lparr>esp_name = ''Status LED Blinker'', esp_description = ''Blinks built-in LED'',
          esp_enabled = True, esp_code = (\<lambda>data g. (None, 1, g))\<rparr>"
    by (simp add: demo_esp_engine_def)
  have o: "set [] = enabled_scripts (snd (disable_script ''status_led'' demo_esp_engine))"
    by (simp add: demo_esp_engine_def disable_script_def)
  note t = C9_disable_keeps_state [OF d m en st b o, where snapshots = "[(), ()]" and data = "()"
      and data' = "()", unfolded Let_def]
  from t st show ?thesis by (intro conjI) (elim conjE, assumption)+
qed

end
